theory Spec2Isabelle
  imports Main "HOL-Library.Sublist"
begin

section \<open>JSON values and the JavaScript coercions the code relies on\<close>

text \<open>
  The edge functions and the view work on values that come out of \<^verbatim>\<open>JSON.parse\<close>,
  \<^verbatim>\<open>req.json()\<close> and the database client. They are modelled by the datatype
  \<open>json\<close>; JavaScript's \<^verbatim>\<open>undefined\<close> is \<open>None\<close> of \<open>json option\<close>.

  Conventions of the model:
  \<^item> a string is a list of code units below 256 (\<open>char\<close>), so the white space class of
    \<^verbatim>\<open>\s\<close> and \<^verbatim>\<open>trim()\<close> is tab, line feed, vertical tab, form feed, carriage
    return, space and no-break space;
  \<^item> \<open>JNum\<close> carries integer-valued numbers of magnitude at most \<open>2^53\<close>, the range
    in which a number is its integer exactly and \<^verbatim>\<open>String\<close> prints its decimal digits;
  \<^item> the pairs of a \<open>JObj\<close> are the own properties of a plain data object, with
    distinct keys, none of which shadows a member of \<^verbatim>\<open>Object.prototype\<close>.
\<close>

datatype json =
    JNull
  | JBool bool
  | JNum int
  | JStr string
  | JArr "json list"
  | JObj "(string \<times> json) list"

text \<open>Truthiness, as tested by \<^verbatim>\<open>if (x)\<close>, \<^verbatim>\<open>!x\<close> and \<^verbatim>\<open>a && b\<close>.\<close>

fun truthy :: "json \<Rightarrow> bool" where
  "truthy JNull = False"
| "truthy (JBool b) = b"
| "truthy (JNum n) = (n \<noteq> 0)"
| "truthy (JStr s) = (s \<noteq> [])"
| "truthy (JArr xs) = True"
| "truthy (JObj kvs) = True"

definition truthy_opt :: "json option \<Rightarrow> bool" where
  "truthy_opt v = (case v of None \<Rightarrow> False | Some j \<Rightarrow> truthy j)"

definition truthy_str :: "string option \<Rightarrow> bool" where
  "truthy_str v = (case v of None \<Rightarrow> False | Some s \<Rightarrow> s \<noteq> [])"

text \<open>
  \<open>js_get v k\<close> is the optional-chaining read \<^verbatim>\<open>v?.k\<close> of a named property \<open>k\<close>
  (none of the names the code reads is an index or a built-in member of strings or
  arrays); \<open>js_first v\<close> is \<^verbatim>\<open>v?.[0]\<close>.
\<close>

fun js_get :: "json option \<Rightarrow> string \<Rightarrow> json option" where
  "js_get (Some (JObj kvs)) k = map_of kvs k"
| "js_get _ k = None"

fun js_first :: "json option \<Rightarrow> json option" where
  "js_first (Some (JArr xs)) = (case xs of [] \<Rightarrow> None | x # _ \<Rightarrow> Some x)"
| "js_first (Some (JObj kvs)) = map_of kvs ''0''"
| "js_first (Some (JStr s)) = (case s of [] \<Rightarrow> None | c # _ \<Rightarrow> Some (JStr [c]))"
| "js_first _ = None"

text \<open>
  The \<^verbatim>\<open>in\<close> operator for a named property: a \<^verbatim>\<open>TypeError\<close> (\<open>None\<close>) on a
  primitive, own-property membership on an object, false on an array.
\<close>

fun js_in :: "string \<Rightarrow> json \<Rightarrow> bool option" where
  "js_in k (JObj kvs) = Some (map_of kvs k \<noteq> None)"
| "js_in k (JArr xs) = Some False"
| "js_in k _ = None"

fun string_of_nat :: "nat \<Rightarrow> string" where
  "string_of_nat n =
     (if n < 10 then [''0123456789'' ! n]
      else string_of_nat (n div 10) @ [''0123456789'' ! (n mod 10)])"

definition string_of_int :: "int \<Rightarrow> string" where
  "string_of_int i =
     (if i < 0 then CHR ''-'' # string_of_nat (nat (- i)) else string_of_nat (nat i))"

fun join_comma :: "string list \<Rightarrow> string" where
  "join_comma [] = []"
| "join_comma [s] = s"
| "join_comma (s # t # ss) = s @ '','' @ join_comma (t # ss)"

text \<open>\<^verbatim>\<open>String(v)\<close>; an array joins its elements with commas, \<^verbatim>\<open>null\<close> elements empty.\<close>

fun js_String :: "json \<Rightarrow> string" where
  "js_String JNull = ''null''"
| "js_String (JBool b) = (if b then ''true'' else ''false'')"
| "js_String (JNum n) = string_of_int n"
| "js_String (JStr s) = s"
| "js_String (JArr xs) = join_comma (map (\<lambda>x. if x = JNull then [] else js_String x) xs)"
| "js_String (JObj kvs) = ''[object Object]''"

section \<open>String operations\<close>

definition is_ws :: "char \<Rightarrow> bool" where
  "is_ws c = (c \<in> set [CHR 0x09, CHR 0x0A, CHR 0x0B, CHR 0x0C, CHR 0x0D, CHR 0x20, CHR 0xA0])"

definition trim :: "string \<Rightarrow> string" where
  "trim s = rev (dropWhile is_ws (rev (dropWhile is_ws s)))"

text \<open>\<^verbatim>\<open>s.indexOf(c)\<close> and \<^verbatim>\<open>s.lastIndexOf(c)\<close> for a one-character needle; \<open>-1\<close> when absent.\<close>

fun indexOf :: "string \<Rightarrow> char \<Rightarrow> int" where
  "indexOf [] c = - 1"
| "indexOf (x # xs) c =
     (if x = c then 0 else (let r = indexOf xs c in if r < 0 then - 1 else r + 1))"

fun lastIndexOf :: "string \<Rightarrow> char \<Rightarrow> int" where
  "lastIndexOf [] c = - 1"
| "lastIndexOf (x # xs) c =
     (let r = lastIndexOf xs c in if 0 \<le> r then r + 1 else if x = c then 0 else - 1)"

text \<open>\<^verbatim>\<open>s.slice(start, end)\<close>: negative arguments count from the end, both are clipped.\<close>

definition slice :: "string \<Rightarrow> int \<Rightarrow> int \<Rightarrow> string" where
  "slice s start end' =
     (let len = int (length s);
          from = (if start < 0 then max (len + start) 0 else min start len);
          to = (if end' < 0 then max (len + end') 0 else min end' len)
      in take (nat (to - from)) (drop (nat from) s))"

text \<open>\<^verbatim>\<open>s.includes(t)\<close>.\<close>

fun includes_str :: "string \<Rightarrow> string \<Rightarrow> bool" where
  "includes_str [] t = (t = [])"
| "includes_str (c # cs) t = (prefix t (c # cs) \<or> includes_str cs t)"

definition to_lower :: "char \<Rightarrow> char" where
  "to_lower c =
     (let n = (of_char c :: nat)
      in if (65 \<le> n \<and> n \<le> 90) \<or> (192 \<le> n \<and> n \<le> 222 \<and> n \<noteq> 215) then char_of (n + 32) else c)"

definition toLowerCase :: "string \<Rightarrow> string" where
  "toLowerCase s = map to_lower s"

section \<open>Extraction of the JSON text from the model response\<close>

text \<open>
  The regular expression \<^verbatim>\<open>/```(?:json)?\s*([\s\S]*?)```/\<close>, applied with
  \<^verbatim>\<open>responseText.match\<close>, as a backtracking matcher with one function per node of the
  pattern. The result is capture group 1 of the leftmost match.
\<close>

definition fence :: string where
  "fence = ''```''"

text \<open>\<^verbatim>\<open>([\s\S]*?)```\<close>: the shortest run of arbitrary characters that a fence follows.\<close>

fun lazy_capture :: "string \<Rightarrow> string option" where
  "lazy_capture [] = None"
| "lazy_capture (c # cs) =
     (if prefix fence (c # cs) then Some [] else map_option ((#) c) (lazy_capture cs))"

text \<open>\<^verbatim>\<open>\s*\<close>: greedy, giving characters back when the rest of the pattern fails.\<close>

fun ws_then_capture :: "string \<Rightarrow> string option" where
  "ws_then_capture [] = lazy_capture []"
| "ws_then_capture (c # cs) =
     (if is_ws c
      then (case ws_then_capture cs of Some m \<Rightarrow> Some m | None \<Rightarrow> lazy_capture (c # cs))
      else lazy_capture (c # cs))"

text \<open>The whole pattern anchored at the head of the text; \<^verbatim>\<open>(?:json)?\<close> is greedy.\<close>

definition match_here :: "string \<Rightarrow> string option" where
  "match_here s =
     (if prefix fence s then
        (let r = drop 3 s in
         if prefix ''json'' r
         then (case ws_then_capture (drop 4 r) of Some m \<Rightarrow> Some m | None \<Rightarrow> ws_then_capture r)
         else ws_then_capture r)
      else None)"

fun codeMatch :: "string \<Rightarrow> string option" where
  "codeMatch [] = match_here []"
| "codeMatch (c # cs) = (case match_here (c # cs) of Some m \<Rightarrow> Some m | None \<Rightarrow> codeMatch cs)"

text \<open>The choice of \<^verbatim>\<open>jsonStr\<close> (the block commented \<^verbatim>\<open>// Parse JSON\<close>).\<close>

definition extract_json_str :: "string \<Rightarrow> string" where
  "extract_json_str responseText =
     (case codeMatch responseText of
        Some g \<Rightarrow> trim g
      | None \<Rightarrow>
          (let start = indexOf responseText (CHR ''{'');
               end' = lastIndexOf responseText (CHR ''}'') + 1
           in if 0 \<le> start \<and> start < end' then slice responseText start end' else responseText))"

section \<open>Normalisation of the parsed analysis\<close>

record key_insight =
  ki_timestamp :: json
  ki_importance :: json
  ki_text :: string

record analysis_data =
  summary :: string
  thought_trace :: "json list"
  chapters :: "json list"
  key_insights :: "key_insight list"
  timeline_data :: "json list"
  diagram_data :: "json list"

text \<open>The callback of \<^verbatim>\<open>rawKeyInsights.map\<close>.\<close>

definition plain_insight :: "json \<Rightarrow> key_insight" where
  "plain_insight item =
     \<lparr>ki_timestamp = JNum 0, ki_importance = JNum 5,
      ki_text = (case item of JStr s \<Rightarrow> s | _ \<Rightarrow> js_String item)\<rparr>"

definition normalize_insight :: "json \<Rightarrow> key_insight" where
  "normalize_insight item =
     (case item of
        JObj kvs \<Rightarrow>
          (case map_of kvs ''timestamp'' of
             Some t \<Rightarrow>
               (case map_of kvs ''importance'' of
                  Some i \<Rightarrow>
                    \<lparr>ki_timestamp = t, ki_importance = i,
                     ki_text = js_String (case map_of kvs ''text'' of
                                            None \<Rightarrow> JStr []
                                          | Some JNull \<Rightarrow> JStr []
                                          | Some v \<Rightarrow> v)\<rparr>
                | None \<Rightarrow> plain_insight item)
           | None \<Rightarrow> plain_insight item)
      | _ \<Rightarrow> plain_insight item)"

definition array_or_empty :: "json option \<Rightarrow> json list" where
  "array_or_empty v = (case v of Some (JArr xs) \<Rightarrow> xs | _ \<Rightarrow> [])"

definition normalize_key_insights :: "json option \<Rightarrow> key_insight list" where
  "normalize_key_insights rawKeyInsights =
     (case rawKeyInsights of Some (JArr xs) \<Rightarrow> map normalize_insight xs | _ \<Rightarrow> [])"

section \<open>The job store and the outcomes of external calls\<close>

datatype video_status = Uploading | Processing | Completed | Failed

text \<open>
  The table \<^verbatim>\<open>videos\<close> as the migrations create it: the columns \<^verbatim>\<open>id\<close>,
  \<^verbatim>\<open>storage_path\<close>, \<^verbatim>\<open>status\<close> and \<^verbatim>\<open>created_at\<close>. No migration adds another column
  to it. A row is kept under its id, with the two columns the functions read or write.
\<close>

definition videos_columns :: "string list" where
  "videos_columns = [''id'', ''storage_path'', ''status'', ''created_at'']"

record video =
  storage_path :: "string option"
  status :: video_status

text \<open>
  The store holds the table \<^verbatim>\<open>videos\<close> and the table \<^verbatim>\<open>video_analyses\<close> (unique on
  \<^verbatim>\<open>video_id\<close>), both keyed by the video id. \<open>status_log\<close> is the sequence of lines
  \<^verbatim>\<open>Video <id> status: <status>\<close> that \<^verbatim>\<open>updateVideoStatus\<close> prints, one per
  status update it issues. An update is applied to the row it names when every column it
  sets is a column of the table; an update that sets any other column is rejected as a
  whole and changes nothing.
\<close>

record db =
  videos :: "string \<rightharpoonup> video"
  video_analyses :: "string \<rightharpoonup> analysis_data"
  status_log :: "(string \<times> video_status) list"

text \<open>
  A value raised by \<^verbatim>\<open>throw\<close> or by a rejected promise: an \<^verbatim>\<open>Error\<close> instance with
  its message, or some other value with its \<^verbatim>\<open>String\<close> rendering. \<open>err_msg\<close> is
  \<^verbatim>\<open>err instanceof Error ? err.message : String(err)\<close>.
\<close>

datatype thrown = ErrorObj string | NonError string

fun err_msg :: "thrown \<Rightarrow> string" where
  "err_msg (ErrorObj m) = m"
| "err_msg (NonError s) = s"

datatype 'a outcome = Throws thrown | Gives 'a

text \<open>
  A \<^verbatim>\<open>fetch\<close>: it rejects, or answers with \<^verbatim>\<open>ok = false\<close> (and the outcome of
  \<^verbatim>\<open>.text()\<close>), or answers with \<^verbatim>\<open>ok = true\<close> (and the outcome of \<^verbatim>\<open>.json()\<close>).
\<close>

datatype http_response =
    HttpFails thrown
  | HttpNotOk "string outcome"
  | HttpOk "json outcome"

text \<open>A downloaded blob: its type and the outcome of \<^verbatim>\<open>await blob.arrayBuffer()\<close>.\<close>

record blob =
  blob_type :: string
  arrayBuffer :: "nat list outcome"

datatype fault = NotAFunction | ReadOfNull

text \<open>
  The \<^verbatim>\<open>error\<close> of an answered upsert: its \<^verbatim>\<open>message\<close>, and whether the object is an
  instance of \<^verbatim>\<open>Error\<close> (otherwise it is a plain object, which \<^verbatim>\<open>String\<close> renders as
  \<^verbatim>\<open>[object Object]\<close>).
\<close>

record store_error =
  se_message :: string
  se_instanceof_Error :: bool

definition thrown_of :: "store_error \<Rightarrow> thrown" where
  "thrown_of insertError =
     (if se_instanceof_Error insertError then ErrorObj (se_message insertError)
      else NonError ''[object Object]'')"

text \<open>
  Everything one invocation receives from outside the job store: the secret, the storage
  bucket, the answers of the inference service, the runtime's \<^verbatim>\<open>JSON.parse\<close> and the
  messages of its \<^verbatim>\<open>TypeError\<close>s, the answer of the upsert (\<open>Gives None\<close> is success,
  \<open>Gives (Some err)\<close> is \<^verbatim>\<open>{error: err}\<close>), and the printed duration.
\<close>

record env =
  GEMINI_API_KEY :: "string option"
  storage_download :: "string \<Rightarrow> blob option"
  upload_start :: "string option outcome"
  upload_transfer :: http_response
  generate :: http_response
  JSON_parse :: "string \<Rightarrow> json outcome"
  fault_message :: "fault \<Rightarrow> string"
  upsert :: "store_error option outcome"
  duration :: string

record request =
  req_method :: string
  req_json :: "json outcome"

record response =
  resp_status :: nat
  resp_body :: "json option"

definition json_response :: "nat \<Rightarrow> (string \<times> json) list \<Rightarrow> response" where
  "json_response code kvs = \<lparr>resp_status = code, resp_body = Some (JObj kvs)\<rparr>"

section \<open>The orchestrator with status messages\<close>

text \<open>
  The columns that the object \<^verbatim>\<open>updates\<close> of \<^verbatim>\<open>updateVideoStatus\<close> sets:
  \<^verbatim>\<open>status\<close>, and \<^verbatim>\<open>error_message\<close> when a message is passed.
\<close>

definition update_keys :: "string option \<Rightarrow> string list" where
  "update_keys errorMsg =
     (if truthy_str errorMsg then [''status'', ''error_message''] else [''status''])"

text \<open>
  \<^verbatim>\<open>updateVideoStatus\<close> awaits the update, does not read the \<^verbatim>\<open>error\<close> that comes back,
  and prints its line in either case.
\<close>

definition updateVideoStatus :: "db \<Rightarrow> string \<Rightarrow> video_status \<Rightarrow> string option \<Rightarrow> db" where
  "updateVideoStatus s videoId st errorMsg =
     s\<lparr>videos :=
         (if set (update_keys errorMsg) \<subseteq> set videos_columns
          then (case videos s videoId of
                  None \<Rightarrow> videos s
                | Some v \<Rightarrow> (videos s)(videoId \<mapsto> v\<lparr>status := st\<rparr>))
          else videos s),
       status_log := status_log s @ [(videoId, st)]\<rparr>"

text \<open>The first \<^verbatim>\<open>try\<close> block: the video id of the request, or the 400 response.\<close>

definition read_video_id :: "json outcome \<Rightarrow> response + string" where
  "read_video_id b =
     (case b of
        Throws t \<Rightarrow> Inl (json_response 400 [(''error'', JStr ''Invalid JSON body'')])
      | Gives body \<Rightarrow>
          (case js_in ''record'' body of
             None \<Rightarrow> Inl (json_response 400 [(''error'', JStr ''Invalid JSON body'')])
           | Some has_record \<Rightarrow>
               (case (if has_record then js_get (js_get (Some body) ''record'') ''id'' else None) of
                  Some rid \<Rightarrow>
                    (if truthy rid then Inr (trim (js_String rid))
                     else (case js_get (Some body) ''video_id'' of
                             Some vid \<Rightarrow>
                               (if truthy vid then Inr (trim (js_String vid))
                                else Inl (json_response 400
                                       [(''error'', JStr ''Missing video_id or webhook record'')]))
                           | None \<Rightarrow>
                               Inl (json_response 400
                                      [(''error'', JStr ''Missing video_id or webhook record'')])))
                | None \<Rightarrow>
                    (case js_get (Some body) ''video_id'' of
                       Some vid \<Rightarrow>
                         (if truthy vid then Inr (trim (js_String vid))
                          else Inl (json_response 400
                                 [(''error'', JStr ''Missing video_id or webhook record'')]))
                     | None \<Rightarrow>
                         Inl (json_response 400
                                [(''error'', JStr ''Missing video_id or webhook record'')])))))"

text \<open>The \<^verbatim>\<open>try\<close> block of the upload negotiation: the upload URL or what was thrown.\<close>

definition negotiate_upload :: "env \<Rightarrow> thrown + string" where
  "negotiate_upload e =
     (case upload_start e of
        Throws t \<Rightarrow> Inl t
      | Gives h \<Rightarrow>
          (if truthy_str h then (case h of Some u \<Rightarrow> Inr u | None \<Rightarrow> Inl (ErrorObj ''No upload URL from Gemini''))
           else Inl (ErrorObj ''No upload URL from Gemini'')))"

text \<open>The \<^verbatim>\<open>try\<close> block of the transfer: the file URI or what was thrown.\<close>

definition transfer_file :: "env \<Rightarrow> thrown + json" where
  "transfer_file e =
     (case upload_transfer e of
        HttpFails t \<Rightarrow> Inl t
      | HttpNotOk tx \<Rightarrow>
          (case tx of
             Throws t \<Rightarrow> Inl t
           | Gives errorText \<Rightarrow> Inl (ErrorObj (''Upload failed: '' @ errorText)))
      | HttpOk js \<Rightarrow>
          (case js of
             Throws t \<Rightarrow> Inl t
           | Gives fileInfo \<Rightarrow>
               (case js_get (js_get (Some fileInfo) ''file'') ''uri'' of
                  Some uri \<Rightarrow>
                    (if truthy uri then Inr uri else Inl (ErrorObj ''No file URI from Gemini response''))
                | None \<Rightarrow> Inl (ErrorObj ''No file URI from Gemini response''))))"

text \<open>
  \<^verbatim>\<open>(genData?.candidates?.[0]?.content?.parts?.[0]?.text ?? "").trim()\<close>; a text that is
  not a string has no \<^verbatim>\<open>trim\<close>.
\<close>

definition response_text :: "env \<Rightarrow> json \<Rightarrow> thrown + string" where
  "response_text e genData =
     (case js_get (js_first (js_get (js_get (js_first (js_get (Some genData) ''candidates''))
                                        ''content'') ''parts'')) ''text'' of
        None \<Rightarrow> Inr (trim [])
      | Some JNull \<Rightarrow> Inr (trim [])
      | Some (JStr t) \<Rightarrow> Inr (trim t)
      | Some _ \<Rightarrow> Inl (ErrorObj (fault_message e NotAFunction)))"

text \<open>From \<^verbatim>\<open>JSON.parse(jsonStr)\<close> to the filled \<^verbatim>\<open>analysisData\<close>.\<close>

definition fill_analysis :: "env \<Rightarrow> json \<Rightarrow> thrown + analysis_data" where
  "fill_analysis e parsed =
     (if parsed = JNull then Inl (ErrorObj (fault_message e ReadOfNull))
      else Inr \<lparr>summary = (case js_get (Some parsed) ''summary'' of Some (JStr s) \<Rightarrow> s | _ \<Rightarrow> []),
                thought_trace = array_or_empty (js_get (Some parsed) ''thought_trace''),
                chapters = array_or_empty (js_get (Some parsed) ''chapters''),
                key_insights = normalize_key_insights (js_get (Some parsed) ''key_insights''),
                timeline_data = array_or_empty (js_get (Some parsed) ''timeline_data''),
                diagram_data = array_or_empty (js_get (Some parsed) ''diagram_data'')\<rparr>)"

definition parse_analysis :: "env \<Rightarrow> string \<Rightarrow> thrown + analysis_data" where
  "parse_analysis e responseText =
     (case JSON_parse e (extract_json_str responseText) of
        Throws t \<Rightarrow> Inl t
      | Gives parsed \<Rightarrow> fill_analysis e parsed)"

text \<open>The \<^verbatim>\<open>try\<close> block of step 4: generation and parsing.\<close>

definition generate_analysis :: "env \<Rightarrow> thrown + analysis_data" where
  "generate_analysis e =
     (case generate e of
        HttpFails t \<Rightarrow> Inl t
      | HttpNotOk tx \<Rightarrow>
          (case tx of
             Throws t \<Rightarrow> Inl t
           | Gives errText \<Rightarrow> Inl (ErrorObj (''Gemini generate failed: '' @ errText)))
      | HttpOk js \<Rightarrow>
          (case js of
             Throws t \<Rightarrow> Inl t
           | Gives genData \<Rightarrow>
               (case response_text e genData of
                  Inl t \<Rightarrow> Inl t
                | Inr responseText \<Rightarrow>
                    (if responseText = [] then Inl (ErrorObj ''Empty response from Gemini'')
                     else parse_analysis e responseText))))"

text \<open>The \<^verbatim>\<open>try\<close> block of step 5: the upsert on \<^verbatim>\<open>video_id\<close>.\<close>

definition save_analysis :: "env \<Rightarrow> db \<Rightarrow> string \<Rightarrow> analysis_data \<Rightarrow> thrown + db" where
  "save_analysis e s videoId analysisData =
     (case upsert e of
        Throws t \<Rightarrow> Inl t
      | Gives (Some insertError) \<Rightarrow> Inl (thrown_of insertError)
      | Gives None \<Rightarrow> Inr (s\<lparr>video_analyses := (video_analyses s)(videoId \<mapsto> analysisData)\<rparr>))"

text \<open>
  Steps 2 to 6, entered once the job is resolved and marked \<^verbatim>\<open>processing\<close>. The handler
  answers with a response (\<open>Inr\<close>) or rejects (\<open>Inl\<close>): reading the bytes of the blob is
  outside every \<^verbatim>\<open>try\<close>.
\<close>

definition run_pipeline :: "env \<Rightarrow> db \<Rightarrow> string \<Rightarrow> string \<Rightarrow> (thrown + response) \<times> db" where
  "run_pipeline e s videoId path =
     (case storage_download e path of
        None \<Rightarrow>
          (Inr (json_response 500 [(''error'', JStr ''Failed to download video from storage'')]),
           updateVideoStatus s videoId Failed (Some ''Failed to download video''))
      | Some blob \<Rightarrow>
          (case arrayBuffer blob of
             Throws t \<Rightarrow> (Inl t, s)
           | Gives bytes \<Rightarrow>
          (case negotiate_upload e of
             Inl err \<Rightarrow>
               (Inr (json_response 500 [(''error'', JStr ''Gemini upload start failed'')]),
                updateVideoStatus s videoId Failed (Some ''Gemini upload initialization failed''))
           | Inr uploadUrl \<Rightarrow>
               (case transfer_file e of
                  Inl err \<Rightarrow>
                    (Inr (json_response 500 [(''error'', JStr ''Gemini file upload failed'')]),
                     updateVideoStatus s videoId Failed (Some ''Gemini file upload failed''))
                | Inr fileUri \<Rightarrow>
                    (case generate_analysis e of
                       Inl err \<Rightarrow>
                         (Inr (json_response 502
                                 [(''error'', JStr ''Gemini analysis failed''),
                                  (''detail'', JStr (err_msg err))]),
                          updateVideoStatus s videoId Failed (Some ''Gemini analysis failed''))
                     | Inr analysisData \<Rightarrow>
                         (case save_analysis e s videoId analysisData of
                            Inl err \<Rightarrow>
                              (Inr (json_response 500
                                      [(''error'', JStr ''Failed to save analysis''),
                                       (''detail'', JStr (err_msg err))]),
                               updateVideoStatus s videoId Failed (Some ''Failed to save analysis''))
                          | Inr s' \<Rightarrow>
                              (Inr (json_response 200
                                      [(''ok'', JBool True), (''video_id'', JStr videoId),
                                       (''duration_seconds'', JStr (duration e))]),
                               updateVideoStatus s' videoId Completed None)))))))"

text \<open>The handler passed to \<^verbatim>\<open>Deno.serve\<close>.\<close>

definition handler :: "env \<Rightarrow> request \<Rightarrow> db \<Rightarrow> (thrown + response) \<times> db" where
  "handler e req s =
     (if req_method req = ''OPTIONS'' then (Inr \<lparr>resp_status = 200, resp_body = None\<rparr>, s)
      else
        (case read_video_id (req_json req) of
           Inl bad \<Rightarrow> (Inr bad, s)
         | Inr videoId \<Rightarrow>
             (if \<not> truthy_str (GEMINI_API_KEY e)
              then (Inr (json_response 500 [(''error'', JStr ''GEMINI_API_KEY not configured'')]), s)
              else
                (case videos s videoId of
                   None \<Rightarrow>
                     (Inr (json_response 404 [(''error'', JStr ''Video not found or no storage_path'')]), s)
                 | Some video \<Rightarrow>
                     (if \<not> truthy_str (storage_path video)
                      then (Inr (json_response 404
                                   [(''error'', JStr ''Video not found or no storage_path'')]), s)
                      else
                        (case storage_path video of
                           None \<Rightarrow>
                             (Inr (json_response 404
                                     [(''error'', JStr ''Video not found or no storage_path'')]), s)
                         | Some path \<Rightarrow>
                             run_pipeline e (updateVideoStatus s videoId Processing None) videoId path))))))"

section \<open>The orchestrator \<^verbatim>\<open>analysis_trigger\<close>\<close>







section \<open>The status synchronisation of the analysis view\<close>

text \<open>
  The effect of \<^verbatim>\<open>AnalysisView\<close> that runs when no payload is passed in and the video id
  is not empty. The component state, the refs, the two channels, the timers and the
  requests in flight form one record; every callback the runtime can invoke is an event,
  and \<open>step\<close> runs that callback to completion, together with the promise continuations
  that follow it without another callback in between.
\<close>

definition MAX_POLL_TIMEOUT_MS :: int where
  "MAX_POLL_TIMEOUT_MS = 5 * 60 * 1000"

definition PROGRESS_STEPS :: "string list" where
  "PROGRESS_STEPS =
     [''Video secured in vault...'', ''Transferring to Gemini Engine...'',
      ''Performing High-Reasoning Scan...'']"

record payload =
  p_summary :: "string option"
  p_thought_trace :: "json list"
  p_chapters :: "json list"
  p_key_insights :: "json list"
  p_timeline_data :: "json list option"
  p_diagram_data :: "json list option"
  p_timelineMarkers :: "json list"
  p_consoleLogs :: "json list"
  p_criticalPoints :: "json list"
  p_summaryMetrics :: "json list"

definition ensureArray :: "(string \<Rightarrow> json outcome) \<Rightarrow> json option \<Rightarrow> json list" where
  "ensureArray parse val =
     (case val of
        Some (JArr xs) \<Rightarrow> xs
      | Some (JStr t) \<Rightarrow> (case parse t of Gives (JArr xs) \<Rightarrow> xs | _ \<Rightarrow> [])
      | _ \<Rightarrow> [])"

definition ensureString :: "json option \<Rightarrow> string" where
  "ensureString val =
     (case val of
        Some (JStr t) \<Rightarrow> t
      | None \<Rightarrow> []
      | Some JNull \<Rightarrow> []
      | Some v \<Rightarrow> js_String v)"

definition ensureKeyInsights :: "json option \<Rightarrow> json list" where
  "ensureKeyInsights val =
     (case val of
        Some (JArr xs) \<Rightarrow>
          map (\<lambda>item. if js_in ''text'' item = Some True then item
                       else (case item of JStr t \<Rightarrow> item | _ \<Rightarrow> JStr (js_String item))) xs
      | _ \<Rightarrow> [])"

definition is_nullish :: "json option \<Rightarrow> bool" where
  "is_nullish v = (v = None \<or> v = Some JNull)"

definition rowToPayload :: "(string \<Rightarrow> json outcome) \<Rightarrow> json option \<Rightarrow> payload option" where
  "rowToPayload parse row =
     (if \<not> truthy_opt row \<or> (is_nullish (js_get row ''id'') \<and> is_nullish (js_get row ''video_id''))
      then None
      else
        (let timelineData = ensureArray parse (js_get row ''timeline_data'');
             diagramData = ensureArray parse (js_get row ''diagram_data'')
         in Some \<lparr>p_summary = (if ensureString (js_get row ''summary'') = [] then None
                                 else Some (ensureString (js_get row ''summary''))),
                   p_thought_trace = ensureArray parse (js_get row ''thought_trace''),
                   p_chapters = ensureArray parse (js_get row ''chapters''),
                   p_key_insights = ensureKeyInsights (js_get row ''key_insights''),
                   p_timeline_data = (if timelineData = [] then None else Some timelineData),
                   p_diagram_data = (if diagramData = [] then None else Some diagramData),
                   p_timelineMarkers = timelineData,
                   p_consoleLogs = [], p_criticalPoints = [], p_summaryMetrics = []\<rparr>))"

text \<open>The error object of the database client, and the answer of one query.\<close>

record pg_error =
  code :: "string option"
  message :: "string option"

datatype query_result = QThrew thrown | QError pg_error | QData "json option"

definition is400 :: "pg_error \<Rightarrow> bool" where
  "is400 e =
     (code e = Some ''PGRST301'' \<or>
      (case message e of None \<Rightarrow> False | Some m \<Rightarrow> includes_str m ''400'') \<or>
      (case message e of None \<Rightarrow> False | Some m \<Rightarrow> includes_str (toLowerCase m) ''bad request''))"

text \<open>
  A request in flight: a \<^verbatim>\<open>fetchOnce\<close> with its flag \<^verbatim>\<open>setErrorOnFail\<close> (false when
  \<^verbatim>\<open>runPoll\<close> issued it, true for the one call of the effect body), a
  \<^verbatim>\<open>fetchLatestAnalysis\<close> (true when it continues a \<^verbatim>\<open>runPoll\<close>), a \<^verbatim>\<open>fetchVideoStatus\<close>.
\<close>

datatype pending = PendingFetch bool | PendingLatest bool | PendingStatus

record view =
  internalPayload :: "payload option"
  error :: "string option"
  loading :: bool
  progressStep :: nat
  fallbackVideoId :: "json option"
  videoStatus :: "json option"
  pollRef :: bool
  pollStartTime :: int
  earlyPollTimer :: bool
  channelAnalysis :: bool
  channelVideo :: bool
  inflight :: "pending list"

datatype tick_source = Interval | Early

datatype event =
    AnalysisPush "json option"
  | VideoPush "json option"
  | PollTick tick_source int
  | FetchDone bool query_result
  | LatestDone bool query_result
  | StatusDone query_result
  | StepTick
  | Cleanup

definition applyResult :: "view \<Rightarrow> payload option \<Rightarrow> json option \<Rightarrow> view" where
  "applyResult v data fromFallbackVideoId =
     (case data of
        None \<Rightarrow> v
      | Some d \<Rightarrow>
          (let v' = v\<lparr>internalPayload := Some d, error := None, loading := False\<rparr>
           in if truthy_opt fromFallbackVideoId then v'\<lparr>fallbackVideoId := fromFallbackVideoId\<rparr> else v'))"

text \<open>The callback of both subscriptions on \<^verbatim>\<open>video_analyses\<close> (INSERT and UPDATE).\<close>

definition on_analysis_change :: "(string \<Rightarrow> json outcome) \<Rightarrow> view \<Rightarrow> json option \<Rightarrow> view" where
  "on_analysis_change parse v new_row = applyResult v (rowToPayload parse new_row) None"

text \<open>
  What the subscription on \<^verbatim>\<open>videos\<close> and \<^verbatim>\<open>fetchVideoStatus\<close> both do with a status.
\<close>

definition see_status :: "view \<Rightarrow> json option \<Rightarrow> view" where
  "see_status v st =
     (let v1 = (if truthy_opt st then v\<lparr>videoStatus := st\<rparr> else v)
      in if st = Some (JStr ''failed'')
         then v1\<lparr>pollRef := False,
                 error := Some ''Analysis failed. Please try again or use a shorter video.'',
                 loading := False\<rparr>
         else v1)"

text \<open>The part of \<^verbatim>\<open>fetchOnce\<close> after the query has answered: the new state and the payload.\<close>

definition fetchOnce_result :: "(string \<Rightarrow> json outcome) \<Rightarrow> bool \<Rightarrow> view \<Rightarrow> query_result \<Rightarrow> view \<times> payload option" where
  "fetchOnce_result parse setErrorOnFail v res =
     (case res of
        QError e \<Rightarrow>
          (if setErrorOnFail \<and> \<not> is400 e then (v\<lparr>error := message e, loading := False\<rparr>, None)
           else (v, None))
      | QData data \<Rightarrow> (v, rowToPayload parse data)
      | QThrew err \<Rightarrow>
          (if setErrorOnFail then (v\<lparr>error := Some (err_msg err), loading := False\<rparr>, None)
           else (v, None)))"

text \<open>
  The part of \<^verbatim>\<open>fetchLatestAnalysis\<close> after the query has answered: the new state and
  whether the latest row was used.
\<close>

definition fetchLatest_result :: "(string \<Rightarrow> json outcome) \<Rightarrow> view \<Rightarrow> query_result \<Rightarrow> view \<times> bool" where
  "fetchLatest_result parse v res =
     (case res of
        QThrew err \<Rightarrow> (v, False)
      | QError e \<Rightarrow> (v, False)
      | QData data \<Rightarrow>
          (if \<not> truthy_opt data then (v, False)
           else (case rowToPayload parse data of
                   None \<Rightarrow> (v, False)
                 | Some pl \<Rightarrow>
                     (if truthy_opt (js_get data ''video_id'')
                      then (applyResult v (Some pl) (js_get data ''video_id''), True)
                      else (v, False)))))"

definition fetchVideoStatus_result :: "view \<Rightarrow> query_result \<Rightarrow> view" where
  "fetchVideoStatus_result v res =
     (case res of
        QThrew err \<Rightarrow> v
      | QError e \<Rightarrow> v
      | QData data \<Rightarrow> see_status v (js_get data ''status''))"

text \<open>\<^verbatim>\<open>runPoll\<close>, up to the point where it has issued its \<^verbatim>\<open>fetchOnce(false)\<close>.\<close>

definition runPoll :: "view \<Rightarrow> int \<Rightarrow> view" where
  "runPoll v now =
     (if now - pollStartTime v > MAX_POLL_TIMEOUT_MS
      then v\<lparr>pollRef := False,
             error := Some ''Analysis is taking longer than expected (5 min). Please try again or use a shorter video.'',
             loading := False\<rparr>
      else v\<lparr>inflight := inflight v @ [PendingFetch False]\<rparr>)"

text \<open>
  The state right after both effects have run for a new video id at time \<open>now\<close>: the
  reset, the two subscriptions, \<^verbatim>\<open>fetchVideoStatus()\<close>, \<^verbatim>\<open>runPoll()\<close>,
  \<^verbatim>\<open>fetchOnce(true)\<close>, the interval and the early timer.
\<close>

definition mount :: "int \<Rightarrow> view" where
  "mount now =
     \<lparr>internalPayload = None, error = None, loading = True, progressStep = 0,
      fallbackVideoId = None, videoStatus = Some (JStr ''processing''),
      pollRef = True, pollStartTime = now, earlyPollTimer = True,
      channelAnalysis = True, channelVideo = True,
      inflight = [PendingStatus, PendingFetch False, PendingFetch True]\<rparr>"

text \<open>Which callbacks the runtime can still invoke in a state.\<close>

fun enabled :: "view \<Rightarrow> event \<Rightarrow> bool" where
  "enabled v (AnalysisPush r) = channelAnalysis v"
| "enabled v (VideoPush r) = channelVideo v"
| "enabled v (PollTick Interval now) = pollRef v"
| "enabled v (PollTick Early now) = earlyPollTimer v"
| "enabled v (FetchDone flag res) = (PendingFetch flag \<in> set (inflight v))"
| "enabled v (LatestDone from_poll res) = (PendingLatest from_poll \<in> set (inflight v))"
| "enabled v (StatusDone res) = (PendingStatus \<in> set (inflight v))"
| "enabled v StepTick = (loading v \<and> internalPayload v = None \<and> videoStatus v \<noteq> Some (JStr ''failed''))"
| "enabled v Cleanup = True"

fun step :: "(string \<Rightarrow> json outcome) \<Rightarrow> view \<Rightarrow> event \<Rightarrow> view" where
  "step parse v (AnalysisPush new_row) = on_analysis_change parse v new_row"
| "step parse v (VideoPush new_row) = see_status v (js_get new_row ''status'')"
| "step parse v (PollTick Interval now) = runPoll v now"
| "step parse v (PollTick Early now) = runPoll (v\<lparr>earlyPollTimer := False\<rparr>) now"
| "step parse v (FetchDone setErrorOnFail res) =
     (let v0 = v\<lparr>inflight := remove1 (PendingFetch setErrorOnFail) (inflight v)\<rparr>;
          (v1, pl) = fetchOnce_result parse setErrorOnFail v0 res
      in case pl of
           Some d \<Rightarrow> applyResult v1 (Some d) None
         | None \<Rightarrow>
             (if setErrorOnFail
              then v1\<lparr>loading := True, inflight := inflight v1 @ [PendingLatest False]\<rparr>
              else v1\<lparr>inflight := inflight v1 @ [PendingLatest True]\<rparr>))"
| "step parse v (LatestDone from_poll res) =
     (let v0 = v\<lparr>inflight := remove1 (PendingLatest from_poll) (inflight v)\<rparr>;
          (v1, used) = fetchLatest_result parse v0 res
      in if from_poll \<and> \<not> used then v1\<lparr>inflight := inflight v1 @ [PendingStatus]\<rparr> else v1)"
| "step parse v (StatusDone res) =
     fetchVideoStatus_result (v\<lparr>inflight := remove1 PendingStatus (inflight v)\<rparr>) res"
| "step parse v StepTick =
     v\<lparr>progressStep := (if progressStep v < length PROGRESS_STEPS - 1 then progressStep v + 1
                         else progressStep v)\<rparr>"
| "step parse v Cleanup =
     v\<lparr>earlyPollTimer := False, channelAnalysis := False, channelVideo := False, pollRef := False\<rparr>"

text \<open>A callback whose source is gone is never invoked.\<close>

definition deliver :: "(string \<Rightarrow> json outcome) \<Rightarrow> view \<Rightarrow> event \<Rightarrow> view" where
  "deliver parse v ev = (if enabled v ev then step parse v ev else v)"

definition run :: "(string \<Rightarrow> json outcome) \<Rightarrow> view \<Rightarrow> event list \<Rightarrow> view" where
  "run parse v evs = foldl (deliver parse) v evs"

text \<open>What the component renders.\<close>

datatype rendered =
    Dashboard payload "json option"
  | FailedPanel string
  | ErrorPanel string
  | Progress nat

definition render :: "view \<Rightarrow> rendered" where
  "render v =
     (case internalPayload v of
        Some pl \<Rightarrow> Dashboard pl (if truthy_opt (fallbackVideoId v) then fallbackVideoId v else None)
      | None \<Rightarrow>
          (if videoStatus v = Some (JStr ''failed'')
           then (case error v of
                   Some m \<Rightarrow>
                     FailedPanel (if m \<noteq> [] then m
                                  else ''Analysis failed. Please try again or use a shorter video.'')
                 | None \<Rightarrow> FailedPanel ''Analysis failed. Please try again or use a shorter video.'')
           else (case error v of
                   Some m \<Rightarrow> (if m \<noteq> [] then ErrorPanel m else Progress (progressStep v))
                 | None \<Rightarrow> Progress (progressStep v))))"

section \<open>Concrete inputs\<close>

text \<open>
  Inputs on which the definitions are evaluated in the examples below. The parser of these
  inputs rejects its argument; in the examples it is applied to no text but the truncated
  object \<^verbatim>\<open>{"summary":\<close>, and the rows of the examples hold no JSON text to parse.
\<close>

definition demo_blob :: blob where
  "demo_blob = \<lparr>blob_type = ''video/mp4'', arrayBuffer = Gives [0, 1, 2]\<rparr>"

definition demo_env :: env where
  "demo_env =
     \<lparr>GEMINI_API_KEY = Some ''key'',
      storage_download = (\<lambda>p. Some demo_blob),
      upload_start = Gives None,
      upload_transfer = HttpFails (ErrorObj ''unreachable''),
      generate = HttpFails (ErrorObj ''unreachable''),
      JSON_parse = (\<lambda>t. Throws (ErrorObj ''Unexpected end of JSON input'')),
      fault_message = (\<lambda>f. ''TypeError''),
      upsert = Gives None,
      duration = ''0.00''\<rparr>"

definition demo_request :: request where
  "demo_request = \<lparr>req_method = ''POST'', req_json = Gives (JObj [(''video_id'', JStr ''abc'')])\<rparr>"

definition demo_video :: "video_status \<Rightarrow> video" where
  "demo_video st = \<lparr>storage_path = Some ''abc.mp4'', status = st\<rparr>"

definition demo_db :: "video_status \<Rightarrow> db" where
  "demo_db st =
     \<lparr>videos = [''abc'' \<mapsto> demo_video st],
      video_analyses = Map.empty,
      status_log = []\<rparr>"

definition empty_db :: db where
  "empty_db = \<lparr>videos = Map.empty, video_analyses = Map.empty, status_log = []\<rparr>"

definition demo_env_no_key :: env where
  "demo_env_no_key = demo_env\<lparr>GEMINI_API_KEY := None\<rparr>"

definition demo_env_no_download :: env where
  "demo_env_no_download = demo_env\<lparr>storage_download := (\<lambda>p. None)\<rparr>"

definition demo_parse :: "string \<Rightarrow> json outcome" where
  "demo_parse t = Throws (ErrorObj ''Unexpected end of JSON input'')"

definition row_abc :: "json option" where
  "row_abc = Some (JObj [(''id'', JStr ''r1''), (''video_id'', JStr ''abc''), (''summary'', JStr ''first'')])"

definition row_abc_updated :: "json option" where
  "row_abc_updated = Some (JObj [(''id'', JStr ''r1''), (''video_id'', JStr ''abc''), (''summary'', JStr ''second'')])"

definition row_other :: "json option" where
  "row_other = Some (JObj [(''id'', JStr ''r2''), (''video_id'', JStr ''other''), (''summary'', JStr ''elsewhere'')])"

definition payload_of_summary :: "string \<Rightarrow> payload" where
  "payload_of_summary t =
     \<lparr>p_summary = Some t, p_thought_trace = [], p_chapters = [], p_key_insights = [],
      p_timeline_data = None, p_diagram_data = None, p_timelineMarkers = [],
      p_consoleLogs = [], p_criticalPoints = [], p_summaryMetrics = []\<rparr>"



definition timeout_text :: string where
  "timeout_text = ''Analysis is taking longer than expected (5 min). Please try again or use a shorter video.''"

definition raw_insights :: json where
  "raw_insights =
     JArr [JObj [(''timestamp'', JNum 5), (''importance'', JNum 9), (''text'', JStr ''x'')],
           JStr ''plain string'']"

definition fenced_text :: string where
  "fenced_text = ''prose ```json\<newline>{\"summary\":\"s\"}\<newline>```''"

definition braced_text :: string where
  "braced_text = ''noise{\"summary\":\"s\"}trailing''"

definition summary_json :: string where
  "summary_json = ''{\"summary\":\"s\"}''"






section \<open>Properties of the extraction and the normalisation\<close>

lemma fenced_example: "extract_json_str fenced_text = summary_json"
  by (simp add: extract_json_str_def fenced_text_def summary_json_def match_here_def fence_def is_ws_def trim_def)

lemma braced_example: "extract_json_str braced_text = summary_json"
  by (simp add: extract_json_str_def braced_text_def summary_json_def match_here_def fence_def is_ws_def trim_def slice_def)

lemma braced_example_no_fence: "codeMatch braced_text = None"
  by (simp add: braced_text_def match_here_def fence_def)

lemma plain_insight_text: "plain_insight item = \<lparr>ki_timestamp = JNum 0, ki_importance = JNum 5, ki_text = js_String item\<rparr>"
  by (cases item) (simp_all add: plain_insight_def)

text \<open>
  Claim C8. An item that is an object with the keys \<^verbatim>\<open>timestamp\<close> and \<^verbatim>\<open>importance\<close>
  keeps the values of both and gets its \<^verbatim>\<open>text\<close> as a string (the empty string when the
  text is absent or null); every other item becomes timestamp 0, importance 5 and the
  string of the item. The array is mapped item by item, and the raw array of the example
  yields the two items of the example.
\<close>

theorem key_insight_normalisation:
  "(js_in ''timestamp'' item = Some True \<and> js_in ''importance'' item = Some True \<longrightarrow>
      js_get (Some item) ''timestamp'' = Some (ki_timestamp (normalize_insight item)) \<and>
      js_get (Some item) ''importance'' = Some (ki_importance (normalize_insight item)) \<and>
      (is_nullish (js_get (Some item) ''text'') \<longrightarrow> ki_text (normalize_insight item) = []) \<and>
      (\<forall>tx. js_get (Some item) ''text'' = Some tx \<and> tx \<noteq> JNull \<longrightarrow>
         ki_text (normalize_insight item) = js_String tx)) \<and>
   (\<not> (js_in ''timestamp'' item = Some True \<and> js_in ''importance'' item = Some True) \<longrightarrow>
      normalize_insight item =
        \<lparr>ki_timestamp = JNum 0, ki_importance = JNum 5, ki_text = js_String item\<rparr>) \<and>
   normalize_key_insights (Some (JArr items)) = map normalize_insight items \<and>
   normalize_key_insights
     (Some (JArr [JObj [(''timestamp'', JNum 5), (''importance'', JNum 9), (''text'', JStr ''x'')],
                  JStr ''plain string''])) =
     [\<lparr>ki_timestamp = JNum 5, ki_importance = JNum 9, ki_text = ''x''\<rparr>,
      \<lparr>ki_timestamp = JNum 0, ki_importance = JNum 5, ki_text = ''plain string''\<rparr>]"
proof -
  have a: "js_in ''timestamp'' item = Some True \<and> js_in ''importance'' item = Some True \<longrightarrow>
      js_get (Some item) ''timestamp'' = Some (ki_timestamp (normalize_insight item)) \<and>
      js_get (Some item) ''importance'' = Some (ki_importance (normalize_insight item)) \<and>
      (is_nullish (js_get (Some item) ''text'') \<longrightarrow> ki_text (normalize_insight item) = []) \<and>
      (\<forall>tx. js_get (Some item) ''text'' = Some tx \<and> tx \<noteq> JNull \<longrightarrow>
         ki_text (normalize_insight item) = js_String tx)"
    by (cases item) (auto simp add: normalize_insight_def is_nullish_def split: option.splits json.splits)
  have b: "\<not> (js_in ''timestamp'' item = Some True \<and> js_in ''importance'' item = Some True) \<longrightarrow>
      normalize_insight item =
        \<lparr>ki_timestamp = JNum 0, ki_importance = JNum 5, ki_text = js_String item\<rparr>"
    by (cases item) (auto simp add: normalize_insight_def plain_insight_text split: option.splits)
  have c: "normalize_key_insights (Some (JArr items)) = map normalize_insight items"
    by (simp add: normalize_key_insights_def)
  have d: "normalize_key_insights (Some raw_insights) =
     [\<lparr>ki_timestamp = JNum 5, ki_importance = JNum 9, ki_text = ''x''\<rparr>,
      \<lparr>ki_timestamp = JNum 0, ki_importance = JNum 5, ki_text = ''plain string''\<rparr>]"
    by (simp add: normalize_key_insights_def raw_insights_def normalize_insight_def plain_insight_def)
  from a b c d [unfolded raw_insights_def] show ?thesis by blast
qed

text \<open>The two items of the example, one for each case.\<close>

theorem key_insight_normalisation_witness:
  "js_in ''timestamp'' (JObj [(''timestamp'', JNum 5), (''importance'', JNum 9), (''text'', JStr ''x'')]) = Some True \<and>
   js_in ''importance'' (JObj [(''timestamp'', JNum 5), (''importance'', JNum 9), (''text'', JStr ''x'')]) = Some True \<and>
   ki_timestamp (normalize_insight (JObj [(''timestamp'', JNum 5), (''importance'', JNum 9), (''text'', JStr ''x'')])) = JNum 5 \<and>
   ki_importance (normalize_insight (JObj [(''timestamp'', JNum 5), (''importance'', JNum 9), (''text'', JStr ''x'')])) = JNum 9 \<and>
   ki_text (normalize_insight (JObj [(''timestamp'', JNum 5), (''importance'', JNum 9), (''text'', JStr ''x'')])) = ''x'' \<and>
   \<not> (js_in ''timestamp'' (JStr ''plain string'') = Some True \<and> js_in ''importance'' (JStr ''plain string'') = Some True) \<and>
   normalize_insight (JStr ''plain string'') =
     \<lparr>ki_timestamp = JNum 0, ki_importance = JNum 5, ki_text = ''plain string''\<rparr>"
  using key_insight_normalisation [of "JObj [(''timestamp'', JNum 5), (''importance'', JNum 9), (''text'', JStr ''x'')]"]
        key_insight_normalisation [of "JStr ''plain string''"]
  by simp

lemma lazy_capture_sound:
  "lazy_capture s = Some c \<Longrightarrow> \<exists>rest. s = c @ fence @ rest"
proof (induction s arbitrary: c)
  case Nil
  then show ?case by simp
next
  case (Cons x xs)
  show ?case
  proof (cases "prefix fence (x # xs)")
    case True
    with Cons.prems have "c = []" by simp
    with True show ?thesis by (auto simp add: prefix_def)
  next
    case False
    with Cons.prems obtain c' where c': "lazy_capture xs = Some c'" "c = x # c'"
      by auto
    from Cons.IH [OF c'(1)] c'(2) show ?thesis by auto
  qed
qed

lemma lazy_capture_no_fence:
  "lazy_capture s = Some c \<Longrightarrow> \<not> includes_str c fence"
proof (induction s arbitrary: c)
  case Nil
  then show ?case by simp
next
  case (Cons x xs)
  show ?case
  proof (cases "prefix fence (x # xs)")
    case True
    with Cons.prems have "c = []" by simp
    then show ?thesis by (simp add: fence_def)
  next
    case False
    with Cons.prems obtain c' where c': "lazy_capture xs = Some c'" "c = x # c'"
      by auto
    from lazy_capture_sound [OF c'(1)] obtain rest where r: "xs = c' @ fence @ rest" by blast
    have "\<not> prefix fence (x # c')"
    proof
      assume "prefix fence (x # c')"
      then have "prefix fence ((x # c') @ fence @ rest)" by (rule prefix_prefix)
      with r False show False by simp
    qed
    with Cons.IH [OF c'(1)] c'(2) show ?thesis by simp
  qed
qed

lemma lazy_capture_complete:
  "lazy_capture (a @ fence @ b) \<noteq> None"
proof (induction a)
  case Nil
  then show ?case by (simp add: fence_def)
next
  case (Cons x a)
  then show ?case by simp
qed

lemma ws_then_capture_sound:
  "ws_then_capture s = Some c \<Longrightarrow>
   \<exists>ws r. s = ws @ r \<and> (\<forall>x\<in>set ws. is_ws x) \<and> lazy_capture r = Some c"
proof (induction s arbitrary: c)
  case Nil
  then show ?case by simp
next
  case (Cons x xs)
  show ?case
  proof (cases "is_ws x \<and> ws_then_capture xs \<noteq> None")
    case True
    with Cons.prems have "ws_then_capture xs = Some c" by auto
    from Cons.IH [OF this] obtain ws r where
      "xs = ws @ r" "\<forall>x\<in>set ws. is_ws x" "lazy_capture r = Some c" by blast
    with True have "x # xs = (x # ws) @ r \<and> (\<forall>y\<in>set (x # ws). is_ws y) \<and> lazy_capture r = Some c"
      by simp
    then show ?thesis by blast
  next
    case False
    with Cons.prems have "lazy_capture (x # xs) = Some c"
      by (auto split: if_splits option.splits)
    then have "x # xs = [] @ (x # xs) \<and> (\<forall>y\<in>set []. is_ws y) \<and> lazy_capture (x # xs) = Some c"
      by simp
    then show ?thesis by blast
  qed
qed

lemma ws_then_capture_complete:
  "lazy_capture s \<noteq> None \<Longrightarrow> ws_then_capture s \<noteq> None"
  by (cases s) (auto split: option.splits)

lemma match_here_sound:
  assumes "match_here s = Some c"
  shows "\<exists>tag ws r. s = fence @ tag @ ws @ r \<and> (tag = [] \<or> tag = ''json'') \<and>
           (\<forall>x\<in>set ws. is_ws x) \<and> lazy_capture r = Some c"
proof -
  from assms have p: "prefix fence s"
    by (auto simp add: match_here_def split: if_splits)
  then have s: "s = fence @ drop 3 s"
    by (auto simp add: prefix_def fence_def)
  let ?r = "drop 3 s"
  show ?thesis
  proof (cases "prefix ''json'' ?r \<and> ws_then_capture (drop 4 ?r) \<noteq> None")
    case True
    with assms p have "ws_then_capture (drop 4 ?r) = Some c"
      by (auto simp add: match_here_def Let_def)
    from ws_then_capture_sound [OF this] obtain ws r where
      w: "drop 4 ?r = ws @ r" "\<forall>x\<in>set ws. is_ws x" "lazy_capture r = Some c" by blast
    from True obtain zs where zs: "?r = ''json'' @ zs"
      by (auto simp add: prefix_def)
    then have "drop 4 ?r = zs" by simp
    with zs have "?r = ''json'' @ drop 4 ?r" by simp
    with s w(1) have "s = fence @ ''json'' @ ws @ r" by metis
    with w show ?thesis by blast
  next
    case False
    with assms p have "ws_then_capture ?r = Some c"
      by (auto simp add: match_here_def Let_def split: if_splits option.splits)
    from ws_then_capture_sound [OF this] obtain ws r where
      w: "?r = ws @ r" "\<forall>x\<in>set ws. is_ws x" "lazy_capture r = Some c" by blast
    with s have "s = fence @ [] @ ws @ r" by simp
    with w show ?thesis by blast
  qed
qed

lemma match_here_complete:
  "match_here (fence @ mid @ fence @ post) \<noteq> None"
proof -
  let ?s = "fence @ mid @ fence @ post"
  have p: "prefix fence ?s" by simp
  have d: "drop 3 ?s = mid @ fence @ post"
    by (simp add: fence_def)
  have w: "ws_then_capture (mid @ fence @ post) \<noteq> None"
    by (rule ws_then_capture_complete) (rule lazy_capture_complete)
  have "match_here ?s =
          (if prefix ''json'' (mid @ fence @ post)
           then (case ws_then_capture (drop 4 (mid @ fence @ post)) of
                   Some m \<Rightarrow> Some m
                 | None \<Rightarrow> ws_then_capture (mid @ fence @ post))
           else ws_then_capture (mid @ fence @ post))"
    unfolding match_here_def Let_def d using p by simp
  with w show ?thesis
    by (simp split: option.splits)
qed

lemma codeMatch_sound:
  "codeMatch s = Some c \<Longrightarrow>
   \<exists>pre tag ws r. s = pre @ fence @ tag @ ws @ r \<and> (tag = [] \<or> tag = ''json'') \<and>
     (\<forall>x\<in>set ws. is_ws x) \<and> lazy_capture r = Some c"
proof (induction s)
  case Nil
  then show ?case by (simp add: match_here_def fence_def)
next
  case (Cons x xs)
  show ?case
  proof (cases "match_here (x # xs)")
    case None
    with Cons.prems have "codeMatch xs = Some c" by simp
    from Cons.IH [OF this] obtain pre tag ws r where
      "xs = pre @ fence @ tag @ ws @ r" "tag = [] \<or> tag = ''json''"
      "\<forall>x\<in>set ws. is_ws x" "lazy_capture r = Some c" by blast
    then have "x # xs = (x # pre) @ fence @ tag @ ws @ r \<and> (tag = [] \<or> tag = ''json'') \<and>
      (\<forall>x\<in>set ws. is_ws x) \<and> lazy_capture r = Some c" by simp
    then show ?thesis by blast
  next
    case (Some m)
    with Cons.prems have "match_here (x # xs) = Some c" by simp
    from match_here_sound [OF this] obtain tag ws r where
      "x # xs = [] @ fence @ tag @ ws @ r \<and> (tag = [] \<or> tag = ''json'') \<and>
        (\<forall>x\<in>set ws. is_ws x) \<and> lazy_capture r = Some c" by auto
    then show ?thesis by blast
  qed
qed

lemma codeMatch_complete:
  "codeMatch (pre @ fence @ mid @ fence @ post) \<noteq> None"
proof (induction pre)
  case Nil
  have "fence @ mid @ fence @ post \<noteq> []" by (simp add: fence_def)
  then obtain x xs where e: "fence @ mid @ fence @ post = x # xs" by (cases "fence @ mid @ fence @ post") auto
  from match_here_complete [of mid post] e show ?case
    by (auto split: option.splits)
next
  case (Cons x pre)
  then show ?case by (auto split: option.splits)
qed

lemma codeMatch_interior:
  assumes "codeMatch t = Some g"
  shows "\<exists>pre tag ws post. t = pre @ fence @ tag @ ws @ g @ fence @ post \<and>
           (tag = [] \<or> tag = ''json'') \<and> (\<forall>c\<in>set ws. is_ws c) \<and> \<not> includes_str g fence"
proof -
  from codeMatch_sound [OF assms] obtain pre tag ws r where
    a: "t = pre @ fence @ tag @ ws @ r" "tag = [] \<or> tag = ''json''"
       "\<forall>x\<in>set ws. is_ws x" "lazy_capture r = Some g" by blast
  from lazy_capture_sound [OF a(4)] obtain post where "r = g @ fence @ post" by blast
  with a lazy_capture_no_fence [OF a(4)] show ?thesis by blast
qed

lemma indexOf_first:
  "c \<notin> set a \<Longrightarrow> indexOf (a @ c # r) c = int (length a)"
  by (induction a) (auto simp add: Let_def)

lemma indexOf_absent: "c \<notin> set s \<Longrightarrow> indexOf s c = - 1"
  by (induction s) (auto simp add: Let_def)

lemma lastIndexOf_absent: "c \<notin> set s \<Longrightarrow> lastIndexOf s c = - 1"
  by (induction s) (auto simp add: Let_def)

lemma lastIndexOf_last:
  "c \<notin> set b \<Longrightarrow> lastIndexOf (x @ c # b) c = int (length x)"
  by (induction x) (auto simp add: Let_def lastIndexOf_absent)

lemma slice_within:
  "0 \<le> i \<Longrightarrow> i \<le> j \<Longrightarrow> j \<le> int (length s) \<Longrightarrow> slice s i j = take (nat (j - i)) (drop (nat i) s)"
  by (simp add: slice_def Let_def min_def)

lemma brace_slice:
  assumes "codeMatch t = None" and "t = a @ ''{'' @ m @ ''}'' @ b"
    and "CHR ''{'' \<notin> set a" and "CHR ''}'' \<notin> set b"
  shows "extract_json_str t = ''{'' @ m @ ''}''"
proof -
  have i: "indexOf t (CHR ''{'') = int (length a)"
    using assms(2,3) indexOf_first [of "CHR ''{''" a "m @ ''}'' @ b"] by simp
  have "t = (a @ ''{'' @ m) @ CHR ''}'' # b" using assms(2) by simp
  then have "lastIndexOf t (CHR ''}'') = int (length (a @ ''{'' @ m))"
    using assms(4) lastIndexOf_last [of "CHR ''}''" b "a @ ''{'' @ m"] by simp
  then have l: "lastIndexOf t (CHR ''}'') + 1 = int (length a) + (int (length m) + 2)"
    by simp
  have "slice t (int (length a)) (int (length a) + (int (length m) + 2)) =
        take (nat (int (length m) + 2)) (drop (length a) t)"
    using slice_within [of "int (length a)" "int (length a) + (int (length m) + 2)" t] assms(2) by simp
  also have "\<dots> = ''{'' @ m @ ''}''"
    using assms(2) by (simp add: nat_add_distrib)
  finally have sl: "slice t (int (length a)) (int (length a) + (int (length m) + 2)) = ''{'' @ m @ ''}''" .
  show ?thesis
    unfolding extract_json_str_def Let_def assms(1) i l using sl by simp
qed

lemma no_brace:
  assumes "codeMatch t = None" and "CHR ''{'' \<notin> set t"
  shows "extract_json_str t = t"
  using assms by (simp add: extract_json_str_def Let_def indexOf_absent)

lemma fenced:
  assumes "t = pre @ fence @ mid @ fence @ post"
  shows "\<exists>pre tag ws g post. t = pre @ fence @ tag @ ws @ g @ fence @ post \<and>
           (tag = [] \<or> tag = ''json'') \<and> (\<forall>c\<in>set ws. is_ws c) \<and> \<not> includes_str g fence \<and>
           extract_json_str t = trim g"
proof -
  from codeMatch_complete [of pre mid post] assms obtain g where g: "codeMatch t = Some g" by auto
  have e: "extract_json_str t = trim g"
    using g by (simp add: extract_json_str_def)
  from codeMatch_interior [OF g] obtain pre' tag ws post' where
    "t = pre' @ fence @ tag @ ws @ g @ fence @ post' \<and> (tag = [] \<or> tag = ''json'') \<and>
     (\<forall>c\<in>set ws. is_ws c) \<and> \<not> includes_str g fence" by blast
  with e have "t = pre' @ fence @ tag @ ws @ g @ fence @ post' \<and> (tag = [] \<or> tag = ''json'') \<and>
     (\<forall>c\<in>set ws. is_ws c) \<and> \<not> includes_str g fence \<and> extract_json_str t = trim g" by simp
  then show ?thesis by blast
qed

lemma fence_iff:
  "codeMatch t \<noteq> None \<longleftrightarrow> (\<exists>pre mid post. t = pre @ fence @ mid @ fence @ post)"
proof
  assume "codeMatch t \<noteq> None"
  then obtain g where "codeMatch t = Some g" by auto
  from codeMatch_interior [OF this] obtain pre tag ws post where
    "t = pre @ fence @ (tag @ ws @ g) @ fence @ post" by auto
  then show "\<exists>pre mid post. t = pre @ fence @ mid @ fence @ post" by blast
next
  assume "\<exists>pre mid post. t = pre @ fence @ mid @ fence @ post"
  then show "codeMatch t \<noteq> None" using codeMatch_complete by blast
qed

text \<open>
  Claim C7. When the text contains an opening and a closing fence, the extracted string is
  the trimmed interior of a fenced block: the text after a fence, an optional \<^verbatim>\<open>json\<close>
  tag and white space, up to the next fence. Otherwise, when the text has a first \<^verbatim>\<open>{\<close>
  and after it a last \<^verbatim>\<open>}\<close>, the extracted string is the slice from the one to the
  other, and a text without \<^verbatim>\<open>{\<close> is taken whole. Both inputs of the example yield
  \<^verbatim>\<open>{"summary":"s"}\<close>.
\<close>

theorem extraction_fence_then_braces:
  "((\<exists>pre mid post. t = pre @ fence @ mid @ fence @ post) \<longrightarrow>
      (\<exists>pre tag ws g post.
         t = pre @ fence @ tag @ ws @ g @ fence @ post \<and> (tag = [] \<or> tag = ''json'') \<and>
         (\<forall>c\<in>set ws. is_ws c) \<and> \<not> includes_str g fence \<and> extract_json_str t = trim g)) \<and>
   (\<not> (\<exists>pre mid post. t = pre @ fence @ mid @ fence @ post) \<longrightarrow>
      (\<forall>a m b. t = a @ ''{'' @ m @ ''}'' @ b \<and> CHR ''{'' \<notin> set a \<and> CHR ''}'' \<notin> set b \<longrightarrow>
         extract_json_str t = ''{'' @ m @ ''}'') \<and>
      (CHR ''{'' \<notin> set t \<longrightarrow> extract_json_str t = t)) \<and>
   extract_json_str ''prose ```json\<newline>{\"summary\":\"s\"}\<newline>```'' = ''{\"summary\":\"s\"}'' \<and>
   extract_json_str ''noise{\"summary\":\"s\"}trailing'' = ''{\"summary\":\"s\"}''"
proof -
  have a: "(\<exists>pre mid post. t = pre @ fence @ mid @ fence @ post) \<longrightarrow>
      (\<exists>pre tag ws g post.
         t = pre @ fence @ tag @ ws @ g @ fence @ post \<and> (tag = [] \<or> tag = ''json'') \<and>
         (\<forall>c\<in>set ws. is_ws c) \<and> \<not> includes_str g fence \<and> extract_json_str t = trim g)"
    using fenced by blast
  have b: "\<not> (\<exists>pre mid post. t = pre @ fence @ mid @ fence @ post) \<longrightarrow>
      (\<forall>a m b. t = a @ ''{'' @ m @ ''}'' @ b \<and> CHR ''{'' \<notin> set a \<and> CHR ''}'' \<notin> set b \<longrightarrow>
         extract_json_str t = ''{'' @ m @ ''}'') \<and>
      (CHR ''{'' \<notin> set t \<longrightarrow> extract_json_str t = t)"
  proof
    assume "\<not> (\<exists>pre mid post. t = pre @ fence @ mid @ fence @ post)"
    then have n: "codeMatch t = None" using fence_iff [of t] by simp
    show "(\<forall>a m b. t = a @ ''{'' @ m @ ''}'' @ b \<and> CHR ''{'' \<notin> set a \<and> CHR ''}'' \<notin> set b \<longrightarrow>
         extract_json_str t = ''{'' @ m @ ''}'') \<and>
      (CHR ''{'' \<notin> set t \<longrightarrow> extract_json_str t = t)"
      using brace_slice [OF n] no_brace [OF n] by blast
  qed
  from a b fenced_example [unfolded fenced_text_def summary_json_def] braced_example [unfolded braced_text_def summary_json_def]
  show ?thesis by blast
qed

text \<open>The fenced input for the first case and the braced input for the second.\<close>

theorem extraction_fence_then_braces_witness:
  "(\<exists>pre mid post. fenced_text = pre @ fence @ mid @ fence @ post) \<and>
   (\<exists>pre tag ws g post.
         fenced_text = pre @ fence @ tag @ ws @ g @ fence @ post \<and> (tag = [] \<or> tag = ''json'') \<and>
         (\<forall>c\<in>set ws. is_ws c) \<and> \<not> includes_str g fence \<and> extract_json_str fenced_text = trim g) \<and>
   \<not> (\<exists>pre mid post. braced_text = pre @ fence @ mid @ fence @ post) \<and>
   braced_text = ''noise'' @ ''{'' @ ''\"summary\":\"s\"'' @ ''}'' @ ''trailing'' \<and>
   CHR ''{'' \<notin> set ''noise'' \<and> CHR ''}'' \<notin> set ''trailing'' \<and>
   extract_json_str braced_text = ''{'' @ ''\"summary\":\"s\"'' @ ''}''"
proof -
  have f: "fenced_text = ''prose '' @ fence @ ''json\<newline>{\"summary\":\"s\"}\<newline>'' @ fence @ []"
    by (simp add: fenced_text_def fence_def)
  then have f': "\<exists>pre mid post. fenced_text = pre @ fence @ mid @ fence @ post" by blast
  have n: "\<not> (\<exists>pre mid post. braced_text = pre @ fence @ mid @ fence @ post)"
    using fence_iff [of braced_text] braced_example_no_fence by simp
  have d: "braced_text = ''noise'' @ ''{'' @ ''\"summary\":\"s\"'' @ ''}'' @ ''trailing''"
    by (simp add: braced_text_def)
  have c: "CHR ''{'' \<notin> set ''noise''" "CHR ''}'' \<notin> set ''trailing''" by simp_all
  from extraction_fence_then_braces [of fenced_text] f'
  have 1: "\<exists>pre tag ws g post.
         fenced_text = pre @ fence @ tag @ ws @ g @ fence @ post \<and> (tag = [] \<or> tag = ''json'') \<and>
         (\<forall>c\<in>set ws. is_ws c) \<and> \<not> includes_str g fence \<and> extract_json_str fenced_text = trim g"
    by blast
  from extraction_fence_then_braces [of braced_text] n d c
  have 2: "extract_json_str braced_text = ''{'' @ ''\"summary\":\"s\"'' @ ''}''"
    by blast
  from f' 1 n d c 2 show ?thesis by blast
qed

section \<open>Properties of the orchestrator\<close>

lemma demo_request_method: "req_method demo_request \<noteq> ''OPTIONS''"
  by (simp add: demo_request_def)

lemma demo_request_id: "read_video_id (req_json demo_request) = Inr ''abc''"
  by (simp add: read_video_id_def demo_request_def trim_def is_ws_def)

lemma handler_resolved:
  assumes "req_method req \<noteq> ''OPTIONS''"
    and "read_video_id (req_json req) = Inr videoId"
    and "truthy_str (GEMINI_API_KEY e)"
    and "videos s videoId = Some v"
    and "storage_path v = Some path"
    and "path \<noteq> []"
  shows "handler e req s = run_pipeline e (updateVideoStatus s videoId Processing None) videoId path"
  using assms by (simp add: handler_def truthy_str_def)

lemma handler_cases:
  "snd (handler e req s) = s \<or>
   (\<exists>videoId v path. videos s videoId = Some v \<and> storage_path v = Some path \<and> path \<noteq> [] \<and>
      req_method req \<noteq> ''OPTIONS'' \<and> read_video_id (req_json req) = Inr videoId \<and> truthy_str (GEMINI_API_KEY e) \<and>
      handler e req s = run_pipeline e (updateVideoStatus s videoId Processing None) videoId path)"
  by (auto simp add: handler_def truthy_str_def split: sum.splits option.splits)

text \<open>
  An update with a message sets \<^verbatim>\<open>error_message\<close>, which is no column of the table: the
  rows stay as they are and only the line is printed. An update without a message sets
  the status of the row.
\<close>

lemma update_with_message:
  "m \<noteq> [] \<Longrightarrow>
   updateVideoStatus s videoId st (Some m) = s\<lparr>status_log := status_log s @ [(videoId, st)]\<rparr>"
  by (simp add: updateVideoStatus_def update_keys_def truthy_str_def videos_columns_def)

lemma update_without_message:
  "videos s videoId = Some v \<Longrightarrow>
   updateVideoStatus s videoId st None =
     s\<lparr>videos := (videos s)(videoId \<mapsto> v\<lparr>status := st\<rparr>),
       status_log := status_log s @ [(videoId, st)]\<rparr>"
  by (simp add: updateVideoStatus_def update_keys_def truthy_str_def videos_columns_def)

lemma update_videos_other:
  "j \<noteq> videoId \<Longrightarrow> videos (updateVideoStatus s videoId st m) j = videos s j"
  by (simp add: updateVideoStatus_def split: option.splits)

lemma save_videos: "save_analysis e s videoId a = Inr s' \<Longrightarrow> videos s' = videos s \<and> status_log s' = status_log s"
  by (auto simp add: save_analysis_def split: outcome.splits option.splits)

lemma pipeline_download_fails:
  "storage_download e path = None \<Longrightarrow>
   run_pipeline e s videoId path =
     (Inr (json_response 500 [(''error'', JStr ''Failed to download video from storage'')]),
      updateVideoStatus s videoId Failed (Some ''Failed to download video''))"
  by (simp add: run_pipeline_def)

lemma pipeline_read_rejects:
  "storage_download e path = Some b \<Longrightarrow> arrayBuffer b = Throws t \<Longrightarrow>
   run_pipeline e s videoId path = (Inl t, s)"
  by (simp add: run_pipeline_def)

lemma pipeline_negotiation_fails:
  "storage_download e path = Some b \<Longrightarrow> arrayBuffer b = Gives bytes \<Longrightarrow> negotiate_upload e = Inl t \<Longrightarrow>
   run_pipeline e s videoId path =
     (Inr (json_response 500 [(''error'', JStr ''Gemini upload start failed'')]),
      updateVideoStatus s videoId Failed (Some ''Gemini upload initialization failed''))"
  by (simp add: run_pipeline_def)

lemma pipeline_transfer_fails:
  "storage_download e path = Some b \<Longrightarrow> arrayBuffer b = Gives bytes \<Longrightarrow> negotiate_upload e = Inr u \<Longrightarrow>
   transfer_file e = Inl t \<Longrightarrow>
   run_pipeline e s videoId path =
     (Inr (json_response 500 [(''error'', JStr ''Gemini file upload failed'')]),
      updateVideoStatus s videoId Failed (Some ''Gemini file upload failed''))"
  by (simp add: run_pipeline_def)

lemma pipeline_analysis_fails:
  "storage_download e path = Some b \<Longrightarrow> arrayBuffer b = Gives bytes \<Longrightarrow> negotiate_upload e = Inr u \<Longrightarrow>
   transfer_file e = Inr f \<Longrightarrow> generate_analysis e = Inl t \<Longrightarrow>
   run_pipeline e s videoId path =
     (Inr (json_response 502 [(''error'', JStr ''Gemini analysis failed''), (''detail'', JStr (err_msg t))]),
      updateVideoStatus s videoId Failed (Some ''Gemini analysis failed''))"
  by (simp add: run_pipeline_def)

lemma pipeline_save_fails:
  "storage_download e path = Some b \<Longrightarrow> arrayBuffer b = Gives bytes \<Longrightarrow> negotiate_upload e = Inr u \<Longrightarrow>
   transfer_file e = Inr f \<Longrightarrow> generate_analysis e = Inr a \<Longrightarrow> save_analysis e s videoId a = Inl t \<Longrightarrow>
   run_pipeline e s videoId path =
     (Inr (json_response 500 [(''error'', JStr ''Failed to save analysis''), (''detail'', JStr (err_msg t))]),
      updateVideoStatus s videoId Failed (Some ''Failed to save analysis''))"
  by (simp add: run_pipeline_def)

lemma pipeline_succeeds:
  "storage_download e path = Some b \<Longrightarrow> arrayBuffer b = Gives bytes \<Longrightarrow> negotiate_upload e = Inr u \<Longrightarrow>
   transfer_file e = Inr f \<Longrightarrow> generate_analysis e = Inr a \<Longrightarrow> save_analysis e s videoId a = Inr s' \<Longrightarrow>
   run_pipeline e s videoId path =
     (Inr (json_response 200 [(''ok'', JBool True), (''video_id'', JStr videoId),
                              (''duration_seconds'', JStr (duration e))]),
      updateVideoStatus s' videoId Completed None)"
  by (simp add: run_pipeline_def)

lemma marked_processing:
  assumes "videos s videoId = Some v"
  shows "videos (updateVideoStatus s videoId Processing None) videoId = Some (v\<lparr>status := Processing\<rparr>)"
    and "status_log (updateVideoStatus s videoId Processing None) = status_log s @ [(videoId, Processing)]"
  using assms by (simp_all add: update_without_message)

lemma failed_write:
  assumes "videos s videoId = Some v" and "m \<noteq> []"
  shows "videos (updateVideoStatus (updateVideoStatus s videoId Processing None) videoId Failed (Some m)) videoId =
           Some (v\<lparr>status := Processing\<rparr>)"
    and "status_log (updateVideoStatus (updateVideoStatus s videoId Processing None) videoId Failed (Some m)) =
           status_log s @ [(videoId, Processing), (videoId, Failed)]"
  using assms by (simp_all add: update_with_message update_without_message)

lemma completed_write:
  assumes "videos s videoId = Some v"
    and "save_analysis e (updateVideoStatus s videoId Processing None) videoId a = Inr s'"
  shows "videos (updateVideoStatus s' videoId Completed None) videoId = Some (v\<lparr>status := Completed\<rparr>)"
    and "status_log (updateVideoStatus s' videoId Completed None) =
           status_log s @ [(videoId, Processing), (videoId, Completed)]"
proof -
  from save_videos [OF assms(2)] marked_processing [OF assms(1)]
  have v: "videos s' videoId = Some (v\<lparr>status := Processing\<rparr>)"
    and l: "status_log s' = status_log s @ [(videoId, Processing)]" by simp_all
  show "videos (updateVideoStatus s' videoId Completed None) videoId = Some (v\<lparr>status := Completed\<rparr>)"
    by (simp add: update_without_message [OF v])
  show "status_log (updateVideoStatus s' videoId Completed None) =
           status_log s @ [(videoId, Processing), (videoId, Completed)]"
    by (simp add: update_without_message [OF v] l)
qed

text \<open>
  Every way in which an invocation that has marked the job \<^verbatim>\<open>processing\<close> can end. When
  a stage fails, the update to \<^verbatim>\<open>failed\<close> is issued and printed, and the row still says
  \<open>Processing\<close>; when the bytes of the blob cannot be read the handler rejects, with the
  same row; only when every stage succeeds is the row \<open>Completed\<close>.
\<close>

lemma outcome_after_mark_processing:
  assumes "req_method req \<noteq> ''OPTIONS''"
    and "read_video_id (req_json req) = Inr videoId"
    and "truthy_str (GEMINI_API_KEY e)"
    and "videos s videoId = Some v"
    and "storage_path v = Some path"
    and "path \<noteq> []"
  shows "(\<exists>b bytes. storage_download e path = Some b \<and> arrayBuffer b = Gives bytes \<and>
            \<not> isl (negotiate_upload e) \<and> \<not> isl (transfer_file e) \<and> \<not> isl (generate_analysis e) \<and>
            upsert e = Gives None) \<and>
         videos (snd (handler e req s)) videoId = Some (v\<lparr>status := Completed\<rparr>) \<and>
         status_log (snd (handler e req s)) = status_log s @ [(videoId, Processing), (videoId, Completed)]
         \<or>
         \<not> (\<exists>b bytes. storage_download e path = Some b \<and> arrayBuffer b = Gives bytes \<and>
            \<not> isl (negotiate_upload e) \<and> \<not> isl (transfer_file e) \<and> \<not> isl (generate_analysis e) \<and>
            upsert e = Gives None) \<and>
         videos (snd (handler e req s)) videoId = Some (v\<lparr>status := Processing\<rparr>) \<and>
         (status_log (snd (handler e req s)) = status_log s @ [(videoId, Processing), (videoId, Failed)] \<or>
          isl (fst (handler e req s)) \<and>
          status_log (snd (handler e req s)) = status_log s @ [(videoId, Processing)])"
proof -
  let ?s1 = "updateVideoStatus s videoId Processing None"
  have run: "handler e req s = run_pipeline e ?s1 videoId path"
    using assms by (rule handler_resolved)
  note fw = failed_write [OF assms(4)]
  note mp = marked_processing [OF assms(4)]
  show ?thesis
  proof (cases "storage_download e path")
    case None
    with pipeline_download_fails [OF None, of ?s1 videoId] fw [of "''Failed to download video''"]
    show ?thesis unfolding run by simp
  next
    case (Some b)
    note dl = this
    show ?thesis
    proof (cases "arrayBuffer b")
      case (Throws t)
      with pipeline_read_rejects [OF dl Throws, of ?s1 videoId] mp dl
      show ?thesis unfolding run by simp
    next
      case (Gives bytes)
      note rd = this
      show ?thesis
      proof (cases "negotiate_upload e")
        case (Inl t)
        with pipeline_negotiation_fails [OF dl rd Inl, of ?s1 videoId]
          fw [of "''Gemini upload initialization failed''"]
        show ?thesis unfolding run by simp
      next
        case (Inr u)
        note neg = this
        show ?thesis
        proof (cases "transfer_file e")
          case (Inl t)
          with pipeline_transfer_fails [OF dl rd neg Inl, of ?s1 videoId]
            fw [of "''Gemini file upload failed''"]
          show ?thesis unfolding run by simp
        next
          case (Inr f)
          note tr = this
          show ?thesis
          proof (cases "generate_analysis e")
            case (Inl t)
            with pipeline_analysis_fails [OF dl rd neg tr Inl, of ?s1 videoId]
              fw [of "''Gemini analysis failed''"]
            show ?thesis unfolding run by simp
          next
            case (Inr a)
            note gen = this
            show ?thesis
            proof (cases "save_analysis e ?s1 videoId a")
              case (Inl t)
              then have "upsert e \<noteq> Gives None"
                by (auto simp add: save_analysis_def)
              with pipeline_save_fails [OF dl rd neg tr gen Inl] fw [of "''Failed to save analysis''"]
              show ?thesis unfolding run by simp
            next
              case (Inr s')
              then have "upsert e = Gives None"
                by (auto simp add: save_analysis_def split: outcome.splits option.splits)
              with pipeline_succeeds [OF dl rd neg tr gen Inr] completed_write [OF assms(4) Inr] dl rd neg tr gen
              show ?thesis unfolding run by simp
            qed
          qed
        qed
      qed
    qed
  qed
qed


lemma demo_video_fields:
  "storage_path (demo_video st) = Some ''abc.mp4''" "status (demo_video st) = st"
  by (simp_all add: demo_video_def)

lemma demo_db_fields:
  "videos (demo_db st) ''abc'' = Some (demo_video st)" "status_log (demo_db st) = []"
  by (simp_all add: demo_db_def)


lemma demo_env_fields:
  "truthy_str (GEMINI_API_KEY demo_env)" "storage_download demo_env p = Some demo_blob"
  "truthy_str (GEMINI_API_KEY demo_env_no_download)" "storage_download demo_env_no_download p = None"
  "\<not> truthy_str (GEMINI_API_KEY demo_env_no_key)"
  by (simp_all add: demo_env_def demo_env_no_download_def demo_env_no_key_def truthy_str_def)

lemma demo_path: "''abc.mp4'' \<noteq> []"
  by simp


text \<open>
  Claim C1, as stated, fails: the job \<^verbatim>\<open>abc\<close> is \<open>Completed\<close>; the handler is invoked
  for it again and the download fails. The handler has issued the updates to
  \<^verbatim>\<open>processing\<close> and to \<^verbatim>\<open>failed\<close>, and the job that was \<open>Completed\<close> is now
  \<open>Processing\<close>.
\<close>

theorem terminal_status_is_rewritten_counterexample:
  "videos (demo_db Completed) ''abc'' = Some \<lparr>storage_path = Some ''abc.mp4'', status = Completed\<rparr> \<and>
   status_log (demo_db Completed) = [] \<and>
   status_log (snd (handler demo_env_no_download demo_request (demo_db Completed))) =
     [(''abc'', Processing), (''abc'', Failed)] \<and>
   videos (snd (handler demo_env_no_download demo_request (demo_db Completed))) ''abc'' =
     Some \<lparr>storage_path = Some ''abc.mp4'', status = Processing\<rparr>"
proof -
  have h: "handler demo_env_no_download demo_request (demo_db Completed) =
      (Inr (json_response 500 [(''error'', JStr ''Failed to download video from storage'')]),
       updateVideoStatus (updateVideoStatus (demo_db Completed) ''abc'' Processing None) ''abc'' Failed
         (Some ''Failed to download video''))"
    using handler_resolved [OF demo_request_method demo_request_id demo_env_fields(3)
            demo_db_fields(1) demo_video_fields(1) demo_path]
          pipeline_download_fails [OF demo_env_fields(4)]
    by simp
  have m: "''Failed to download video'' \<noteq> []" by simp
  from failed_write [OF demo_db_fields(1) m, of Completed]
  show ?thesis
    unfolding h by (simp add: demo_db_fields demo_video_def)
qed

lemma pipeline_other_jobs:
  "j \<noteq> videoId \<Longrightarrow> videos (snd (run_pipeline e s videoId path)) j = videos s j"
  by (auto simp add: run_pipeline_def update_videos_other split: option.splits sum.splits outcome.splits
      dest: save_videos)

lemma pipeline_log_grows:
  "\<exists>rest. status_log (snd (run_pipeline e s videoId path)) = status_log s @ rest"
  by (auto simp add: run_pipeline_def updateVideoStatus_def split: option.splits sum.splits outcome.splits
      dest: save_videos)

lemma unresolved_keeps_row:
  assumes "videos s j = Some v"
    and "\<not> (req_method req \<noteq> ''OPTIONS'' \<and> read_video_id (req_json req) = Inr j \<and>
            truthy_str (GEMINI_API_KEY e) \<and> truthy_str (storage_path v))"
  shows "videos (snd (handler e req s)) j = Some v"
proof -
  from handler_cases [of e req s]
  consider "snd (handler e req s) = s"
    | videoId w path where "videos s videoId = Some w" "storage_path w = Some path" "path \<noteq> []"
        "req_method req \<noteq> ''OPTIONS''" "read_video_id (req_json req) = Inr videoId"
        "truthy_str (GEMINI_API_KEY e)"
        "handler e req s = run_pipeline e (updateVideoStatus s videoId Processing None) videoId path"
    by blast
  then show ?thesis
  proof cases
    case 1
    then show ?thesis using assms(1) by simp
  next
    case 2
    have "j \<noteq> videoId"
    proof
      assume "j = videoId"
      with 2 assms(1) have "truthy_str (storage_path v)" by (simp add: truthy_str_def)
      with 2 \<open>j = videoId\<close> assms(2) show False by simp
    qed
    with pipeline_other_jobs [of j videoId e "updateVideoStatus s videoId Processing None" path]
      2(7) assms(1) show ?thesis by (simp add: update_videos_other)
  qed
qed

text \<open>
  Claim C1, amended. A job that is \<open>Completed\<close> or \<open>Failed\<close> keeps its row under every
  invocation of the handler that does not resolve it (an \<^verbatim>\<open>OPTIONS\<close> request, a request
  that yields no id or another id, no key configured, no storage path). An invocation that
  resolves it writes \<open>Processing\<close> first, whatever the status was: the pipeline runs on the
  store in which the job is \<open>Processing\<close>, and that update is the first the invocation
  prints. When every stage of the pipeline then succeeds, the job ends \<open>Completed\<close>.
\<close>

theorem terminal_status_and_reinvocation:
  assumes "videos s j = Some v"
    and "status v = Completed \<or> status v = Failed"
  shows "(\<not> (req_method req \<noteq> ''OPTIONS'' \<and> read_video_id (req_json req) = Inr j \<and>
             truthy_str (GEMINI_API_KEY e) \<and> truthy_str (storage_path v)) \<longrightarrow>
            videos (snd (handler e req s)) j = Some v) \<and>
         (req_method req \<noteq> ''OPTIONS'' \<and> read_video_id (req_json req) = Inr j \<and>
          truthy_str (GEMINI_API_KEY e) \<and> truthy_str (storage_path v) \<longrightarrow>
            (\<exists>path. storage_path v = Some path \<and>
               handler e req s = run_pipeline e (updateVideoStatus s j Processing None) j path \<and>
               videos (updateVideoStatus s j Processing None) j = Some (v\<lparr>status := Processing\<rparr>) \<and>
               (\<exists>rest. status_log (snd (handler e req s)) = status_log s @ (j, Processing) # rest) \<and>
               ((\<exists>b bytes. storage_download e path = Some b \<and> arrayBuffer b = Gives bytes \<and>
                   \<not> isl (negotiate_upload e) \<and> \<not> isl (transfer_file e) \<and>
                   \<not> isl (generate_analysis e) \<and> upsert e = Gives None) \<longrightarrow>
                  videos (snd (handler e req s)) j = Some (v\<lparr>status := Completed\<rparr>))))"
proof (intro conjI impI)
  assume "\<not> (req_method req \<noteq> ''OPTIONS'' \<and> read_video_id (req_json req) = Inr j \<and>
             truthy_str (GEMINI_API_KEY e) \<and> truthy_str (storage_path v))"
  with assms(1) show "videos (snd (handler e req s)) j = Some v"
    by (rule unresolved_keeps_row)
next
  assume r: "req_method req \<noteq> ''OPTIONS'' \<and> read_video_id (req_json req) = Inr j \<and>
          truthy_str (GEMINI_API_KEY e) \<and> truthy_str (storage_path v)"
  then obtain path where p: "storage_path v = Some path" "path \<noteq> []"
    by (auto simp add: truthy_str_def split: option.splits)
  from r have r': "req_method req \<noteq> ''OPTIONS''" "read_video_id (req_json req) = Inr j"
    "truthy_str (GEMINI_API_KEY e)" by simp_all
  let ?s1 = "updateVideoStatus s j Processing None"
  have run: "handler e req s = run_pipeline e ?s1 j path"
    using r' assms(1) p by (rule handler_resolved)
  note mp = marked_processing [OF assms(1)]
  from pipeline_log_grows [of e ?s1 j path] obtain rest where
    "status_log (snd (run_pipeline e ?s1 j path)) = status_log ?s1 @ rest" by blast
  then have lg: "\<exists>rest. status_log (snd (handler e req s)) = status_log s @ (j, Processing) # rest"
    by (simp add: run mp(2))
  have ok: "videos (snd (handler e req s)) j = Some (v\<lparr>status := Completed\<rparr>)"
    if "\<exists>b bytes. storage_download e path = Some b \<and> arrayBuffer b = Gives bytes \<and>
                   \<not> isl (negotiate_upload e) \<and> \<not> isl (transfer_file e) \<and>
                   \<not> isl (generate_analysis e) \<and> upsert e = Gives None"
    using outcome_after_mark_processing [OF r' assms(1) p] that by blast
  from p(1) run mp(1) lg ok
  show "\<exists>path. storage_path v = Some path \<and>
               handler e req s = run_pipeline e (updateVideoStatus s j Processing None) j path \<and>
               videos (updateVideoStatus s j Processing None) j = Some (v\<lparr>status := Processing\<rparr>) \<and>
               (\<exists>rest. status_log (snd (handler e req s)) = status_log s @ (j, Processing) # rest) \<and>
               ((\<exists>b bytes. storage_download e path = Some b \<and> arrayBuffer b = Gives bytes \<and>
                   \<not> isl (negotiate_upload e) \<and> \<not> isl (transfer_file e) \<and>
                   \<not> isl (generate_analysis e) \<and> upsert e = Gives None) \<longrightarrow>
                  videos (snd (handler e req s)) j = Some (v\<lparr>status := Completed\<rparr>))"
    by blast
qed

text \<open>
  The amended statement at the completed job \<^verbatim>\<open>abc\<close>: left alone by a request without a
  configured key, and written \<open>Processing\<close> by a request that resolves it.
\<close>

theorem terminal_status_and_reinvocation_witness:
  "videos (demo_db Completed) ''abc'' = Some (demo_video Completed) \<and>
   (status (demo_video Completed) = Completed \<or> status (demo_video Completed) = Failed) \<and>
   \<not> truthy_str (GEMINI_API_KEY demo_env_no_key) \<and>
   videos (snd (handler demo_env_no_key demo_request (demo_db Completed))) ''abc'' =
     Some (demo_video Completed) \<and>
   req_method demo_request \<noteq> ''OPTIONS'' \<and> read_video_id (req_json demo_request) = Inr ''abc'' \<and>
   truthy_str (GEMINI_API_KEY demo_env_no_download) \<and> truthy_str (storage_path (demo_video Completed)) \<and>
   videos (updateVideoStatus (demo_db Completed) ''abc'' Processing None) ''abc'' =
     Some ((demo_video Completed)\<lparr>status := Processing\<rparr>) \<and>
   (\<exists>rest. status_log (snd (handler demo_env_no_download demo_request (demo_db Completed))) =
      status_log (demo_db Completed) @ (''abc'', Processing) # rest)"
proof -
  have t: "status (demo_video Completed) = Completed \<or> status (demo_video Completed) = Failed"
    by (simp add: demo_video_fields)
  have p: "truthy_str (storage_path (demo_video Completed))"
    by (simp add: demo_video_fields truthy_str_def)
  note a = terminal_status_and_reinvocation [OF demo_db_fields(1) t,
             where req = demo_request and e = demo_env_no_key]
  note b = terminal_status_and_reinvocation [OF demo_db_fields(1) t,
             where req = demo_request and e = demo_env_no_download]
  from a demo_env_fields(5)
  have 1: "videos (snd (handler demo_env_no_key demo_request (demo_db Completed))) ''abc'' =
     Some (demo_video Completed)" by blast
  from b demo_request_method demo_request_id demo_env_fields(3) p
  have 2: "videos (updateVideoStatus (demo_db Completed) ''abc'' Processing None) ''abc'' =
     Some ((demo_video Completed)\<lparr>status := Processing\<rparr>)"
    and 3: "\<exists>rest. status_log (snd (handler demo_env_no_download demo_request (demo_db Completed))) =
      status_log (demo_db Completed) @ (''abc'', Processing) # rest"
    by blast+
  show ?thesis
    by (intro conjI demo_db_fields(1) t demo_env_fields(5) 1 demo_request_method demo_request_id
        demo_env_fields(3) p 2 3)
qed

text \<open>
  Claim C10, as stated, fails: the key is tested before the job is looked up, so without
  a configured key the request for the unknown job \<^verbatim>\<open>abc\<close> is answered with 500.
\<close>

theorem unresolved_job_without_key_counterexample:
  "req_method demo_request \<noteq> ''OPTIONS'' \<and>
   read_video_id (req_json demo_request) = Inr ''abc'' \<and>
   videos empty_db ''abc'' = None \<and>
   fst (handler demo_env_no_key demo_request empty_db) =
     Inr (json_response 500 [(''error'', JStr ''GEMINI_API_KEY not configured'')]) \<and>
   resp_status (json_response 500 [(''error'', JStr ''GEMINI_API_KEY not configured'')]) \<noteq> 404"
  using demo_request_method demo_request_id demo_env_fields(5)
  by (simp add: handler_def empty_db_def json_response_def)

text \<open>
  Claim C10, amended. A request with an id for which no job exists, or whose job has no
  storage path, leaves the store as it was: no status is written. The response is the 404
  \<^verbatim>\<open>Video not found or no storage_path\<close> when the key is configured, and the 500
  \<^verbatim>\<open>GEMINI_API_KEY not configured\<close> otherwise.
\<close>

theorem unresolved_job_is_not_touched:
  assumes "req_method req \<noteq> ''OPTIONS''"
    and "read_video_id (req_json req) = Inr videoId"
    and "videos s videoId = None \<or>
         (\<exists>v. videos s videoId = Some v \<and> \<not> truthy_str (storage_path v))"
  shows "snd (handler e req s) = s \<and>
         (truthy_str (GEMINI_API_KEY e) \<longrightarrow>
            fst (handler e req s) =
              Inr (json_response 404 [(''error'', JStr ''Video not found or no storage_path'')])) \<and>
         (\<not> truthy_str (GEMINI_API_KEY e) \<longrightarrow>
            fst (handler e req s) =
              Inr (json_response 500 [(''error'', JStr ''GEMINI_API_KEY not configured'')]))"
  using assms by (auto simp add: handler_def)

text \<open>The scenario of the unknown job \<^verbatim>\<open>abc\<close> with the key configured: 404, store unchanged.\<close>

theorem unresolved_job_is_not_touched_witness:
  "req_method demo_request \<noteq> ''OPTIONS'' \<and>
   read_video_id (req_json demo_request) = Inr ''abc'' \<and>
   videos empty_db ''abc'' = None \<and>
   truthy_str (GEMINI_API_KEY demo_env) \<and>
   snd (handler demo_env demo_request empty_db) = empty_db \<and>
   fst (handler demo_env demo_request empty_db) =
     Inr (json_response 404 [(''error'', JStr ''Video not found or no storage_path'')]) \<and>
   resp_status (json_response 404 [(''error'', JStr ''Video not found or no storage_path'')]) = 404"
proof -
  have n: "videos empty_db ''abc'' = None \<or>
         (\<exists>v. videos empty_db ''abc'' = Some v \<and> \<not> truthy_str (storage_path v))"
    by (simp add: empty_db_def)
  from unresolved_job_is_not_touched [OF demo_request_method demo_request_id n, where e = demo_env]
    demo_request_method demo_request_id demo_env_fields(1)
  show ?thesis by (simp add: empty_db_def json_response_def)
qed

section \<open>Properties of the two orchestrators on a failed analysis\<close>



















section \<open>Properties of the status synchronisation\<close>

lemma demo_rows:
  "rowToPayload demo_parse row_abc = Some (payload_of_summary ''first'')"
  "rowToPayload demo_parse row_abc_updated = Some (payload_of_summary ''second'')"
  "rowToPayload demo_parse row_other = Some (payload_of_summary ''elsewhere'')"
  "rowToPayload demo_parse None = None"
  by (simp_all add: rowToPayload_def row_abc_def row_abc_updated_def row_other_def payload_of_summary_def
      truthy_opt_def is_nullish_def ensureArray_def ensureString_def ensureKeyInsights_def)



lemma applyResult_Some:
  "applyResult v (Some d) None = v\<lparr>internalPayload := Some d, error := None, loading := False\<rparr>"
  by (simp add: applyResult_def truthy_opt_def)

lemma applyResult_payload:
  "internalPayload (applyResult v (Some d) tag) = Some d"
  "error (applyResult v (Some d) tag) = None"
  "loading (applyResult v (Some d) tag) = False"
  "pollRef (applyResult v x tag) = pollRef v"
  "earlyPollTimer (applyResult v x tag) = earlyPollTimer v"
  "channelAnalysis (applyResult v x tag) = channelAnalysis v"
  "channelVideo (applyResult v x tag) = channelVideo v"
  "inflight (applyResult v x tag) = inflight v"
  by (simp_all add: applyResult_def Let_def split: option.splits)

lemma applyResult_keeps_ready:
  "internalPayload v \<noteq> None \<Longrightarrow> internalPayload (applyResult v x tag) \<noteq> None"
  by (simp add: applyResult_def Let_def split: option.splits)

lemma see_status_payload: "internalPayload (see_status v st) = internalPayload v"
  by (simp add: see_status_def Let_def)

lemma fetchOnce_result_fields:
  "internalPayload (fst (fetchOnce_result parse flag v res)) = internalPayload v"
  "pollRef (fst (fetchOnce_result parse flag v res)) = pollRef v"
  "earlyPollTimer (fst (fetchOnce_result parse flag v res)) = earlyPollTimer v"
  "channelAnalysis (fst (fetchOnce_result parse flag v res)) = channelAnalysis v"
  "channelVideo (fst (fetchOnce_result parse flag v res)) = channelVideo v"
  "inflight (fst (fetchOnce_result parse flag v res)) = inflight v"
  "fallbackVideoId (fst (fetchOnce_result parse flag v res)) = fallbackVideoId v"
  by (simp_all add: fetchOnce_result_def split: query_result.splits)

lemma fetchLatest_result_keeps_ready:
  "internalPayload v \<noteq> None \<Longrightarrow> internalPayload (fst (fetchLatest_result parse v res)) \<noteq> None"
  by (simp add: fetchLatest_result_def applyResult_payload split: query_result.splits option.splits)

lemma step_keeps_ready:
  assumes "internalPayload v \<noteq> None"
  shows "internalPayload (step parse v ev) \<noteq> None"
proof (cases ev)
  case (AnalysisPush r)
  with assms show ?thesis by (simp add: on_analysis_change_def applyResult_keeps_ready)
next
  case (VideoPush r)
  with assms show ?thesis by (simp add: see_status_payload)
next
  case (PollTick src now)
  with assms show ?thesis by (cases src) (simp_all add: runPoll_def)
next
  case (FetchDone flag res)
  with assms show ?thesis
    by (simp add: Let_def split_beta fetchOnce_result_fields applyResult_payload split: option.splits)
next
  case (LatestDone b res)
  with assms fetchLatest_result_keeps_ready show ?thesis
    by (simp add: Let_def split_beta del: not_None_eq)
next
  case (StatusDone res)
  with assms show ?thesis
    by (simp add: fetchVideoStatus_result_def see_status_payload split: query_result.splits)
next
  case StepTick
  with assms show ?thesis by simp
next
  case Cleanup
  with assms show ?thesis by simp
qed

lemma deliver_keeps_ready:
  "internalPayload v \<noteq> None \<Longrightarrow> internalPayload (deliver parse v ev) \<noteq> None"
  by (simp add: deliver_def step_keeps_ready del: not_None_eq)

lemma run_keeps_ready:
  "internalPayload v \<noteq> None \<Longrightarrow> internalPayload (run parse v evs) \<noteq> None"
  unfolding run_def
  by (induction evs arbitrary: v) (simp_all add: deliver_keeps_ready del: not_None_eq)

lemma on_analysis_change_Some:
  "rowToPayload parse row = Some d \<Longrightarrow>
   on_analysis_change parse v row = v\<lparr>internalPayload := Some d, error := None, loading := False\<rparr>"
  by (simp add: on_analysis_change_def applyResult_Some)

lemma step_delivery:
  assumes "rowToPayload parse row = Some d"
  shows "step parse v (AnalysisPush row) = v\<lparr>internalPayload := Some d, error := None, loading := False\<rparr>"
    and "step parse v (FetchDone flag (QData row)) =
           v\<lparr>inflight := remove1 (PendingFetch flag) (inflight v),
             internalPayload := Some d, error := None, loading := False\<rparr>"
  using assms
  by (simp_all add: on_analysis_change_def applyResult_Some fetchOnce_result_def)

text \<open>
  Claim C2, amended. A push delivery or a pull that yields a non-null analysis record
  makes the view ready: the payload is stored, the error is cleared, loading is false;
  and from then on the view stays ready under every sequence of callbacks. The delivery
  leaves the poll interval, the early timer and both subscriptions as they were (only the
  cleanup of the effect removes them), and a later delivery that yields a record replaces
  the stored payload.
\<close>

theorem ready_on_delivery:
  assumes "rowToPayload parse row = Some d"
    and "ev = AnalysisPush row \<or> ev = FetchDone flag (QData row)"
  shows "internalPayload (step parse v ev) = Some d \<and>
         error (step parse v ev) = None \<and>
         loading (step parse v ev) = False \<and>
         (\<forall>evs. internalPayload (run parse (step parse v ev) evs) \<noteq> None) \<and>
         pollRef (step parse v ev) = pollRef v \<and>
         earlyPollTimer (step parse v ev) = earlyPollTimer v \<and>
         channelAnalysis (step parse v ev) = channelAnalysis v \<and>
         channelVideo (step parse v ev) = channelVideo v \<and>
         (\<forall>row' d'. rowToPayload parse row' = Some d' \<longrightarrow>
            internalPayload (step parse (step parse v ev) (AnalysisPush row')) = Some d')"
proof -
  note sd = step_delivery(1) [OF assms(1), of v] step_delivery(2) [OF assms(1), of v flag]
  have a: "internalPayload (step parse v ev) = Some d"
    using assms(2) sd by auto
  have "\<forall>evs. internalPayload (run parse (step parse v ev) evs) \<noteq> None"
    using a by (simp add: run_keeps_ready del: not_None_eq)
  moreover have "\<forall>row' d'. rowToPayload parse row' = Some d' \<longrightarrow>
            internalPayload (step parse (step parse v ev) (AnalysisPush row')) = Some d'"
    by (simp add: on_analysis_change_Some)
  ultimately show ?thesis
    using assms(2) sd by auto
qed

text \<open>The amended statement at the first push for job \<^verbatim>\<open>abc\<close> after the effect has run.\<close>

theorem ready_on_delivery_witness:
  "rowToPayload demo_parse row_abc = Some (payload_of_summary ''first'') \<and>
   internalPayload (step demo_parse (mount 0) (AnalysisPush row_abc)) = Some (payload_of_summary ''first'') \<and>
   pollRef (step demo_parse (mount 0) (AnalysisPush row_abc)) = pollRef (mount 0) \<and>
   channelAnalysis (step demo_parse (mount 0) (AnalysisPush row_abc)) = channelAnalysis (mount 0) \<and>
   channelVideo (step demo_parse (mount 0) (AnalysisPush row_abc)) = channelVideo (mount 0)"
  using ready_on_delivery [OF demo_rows(1), where ev = "AnalysisPush row_abc" and v = "mount 0"] demo_rows(1)
  by simp

lemma mount_fields:
  "pollRef (mount t)" "channelAnalysis (mount t)" "channelVideo (mount t)" "earlyPollTimer (mount t)"
  "internalPayload (mount t) = None" "error (mount t) = None" "pollStartTime (mount t) = t"
  "inflight (mount t) = [PendingStatus, PendingFetch False, PendingFetch True]"
  "videoStatus (mount t) = Some (JStr ''processing'')" "loading (mount t)" "fallbackVideoId (mount t) = None"
  by (simp_all add: mount_def)

lemma run_one: "run parse v [ev] = deliver parse v ev"
  by (simp add: run_def)

lemma run_snoc: "run parse v (evs @ [ev]) = deliver parse (run parse v evs) ev"
  by (simp add: run_def)

lemma payloads_differ: "payload_of_summary ''first'' \<noteq> payload_of_summary ''second''"
  by (simp add: payload_of_summary_def)

lemma after_first_push:
  "run demo_parse (mount 0) [AnalysisPush row_abc] =
     (mount 0)\<lparr>internalPayload := Some (payload_of_summary ''first''), error := None, loading := False\<rparr>"
  by (simp add: run_one deliver_def mount_fields on_analysis_change_Some [OF demo_rows(1)])

text \<open>
  Claim C2, as stated, fails: after the push that makes the view ready, the poll interval
  and both subscriptions are still there, an interval tick and a further push are still
  possible, and the further push (an update of the same row) replaces the payload.
\<close>

theorem ready_does_not_stop_channels_counterexample:
  "internalPayload (mount 0) = None \<and>
   internalPayload (run demo_parse (mount 0) [AnalysisPush row_abc]) = Some (payload_of_summary ''first'') \<and>
   pollRef (run demo_parse (mount 0) [AnalysisPush row_abc]) \<and>
   channelAnalysis (run demo_parse (mount 0) [AnalysisPush row_abc]) \<and>
   channelVideo (run demo_parse (mount 0) [AnalysisPush row_abc]) \<and>
   enabled (run demo_parse (mount 0) [AnalysisPush row_abc]) (PollTick Interval 3000) \<and>
   enabled (run demo_parse (mount 0) [AnalysisPush row_abc]) (AnalysisPush row_abc_updated) \<and>
   internalPayload (run demo_parse (mount 0) [AnalysisPush row_abc, AnalysisPush row_abc_updated]) =
     Some (payload_of_summary ''second'') \<and>
   payload_of_summary ''second'' \<noteq> payload_of_summary ''first''"
proof -
  have "run demo_parse (mount 0) [AnalysisPush row_abc, AnalysisPush row_abc_updated] =
        deliver demo_parse (run demo_parse (mount 0) [AnalysisPush row_abc]) (AnalysisPush row_abc_updated)"
    using run_snoc [of demo_parse "mount 0" "[AnalysisPush row_abc]" "AnalysisPush row_abc_updated"] by simp
  then show ?thesis
    using payloads_differ
    by (simp add: after_first_push mount_fields deliver_def on_analysis_change_Some [OF demo_rows(2)])
qed







lemma runPoll_timeout:
  "now - pollStartTime v > MAX_POLL_TIMEOUT_MS \<Longrightarrow>
   runPoll v now = v\<lparr>pollRef := False, error := Some timeout_text, loading := False\<rparr>"
  by (simp add: runPoll_def timeout_text_def)

lemma runPoll_in_time:
  "\<not> now - pollStartTime v > MAX_POLL_TIMEOUT_MS \<Longrightarrow>
   runPoll v now = v\<lparr>inflight := inflight v @ [PendingFetch False]\<rparr>"
  by (simp add: runPoll_def)

text \<open>
  Claim C6, amended. A poll tick that runs more than five minutes after the start sets the
  timeout error, sets loading to false and clears the poll interval, so that no interval
  tick and no progress tick comes afterwards; with no payload and no failed status the
  view shows this error. The subscriptions and the requests in flight stay as they were.
  A tick within the five minutes leaves the error alone and issues a pull.
\<close>

theorem timeout_tick:
  "(now - pollStartTime v > MAX_POLL_TIMEOUT_MS \<longrightarrow>
      error (step parse v (PollTick src now)) = Some timeout_text \<and>
      loading (step parse v (PollTick src now)) = False \<and>
      pollRef (step parse v (PollTick src now)) = False \<and>
      (\<forall>later. \<not> enabled (step parse v (PollTick src now)) (PollTick Interval later)) \<and>
      \<not> enabled (step parse v (PollTick src now)) StepTick \<and>
      channelAnalysis (step parse v (PollTick src now)) = channelAnalysis v \<and>
      channelVideo (step parse v (PollTick src now)) = channelVideo v \<and>
      inflight (step parse v (PollTick src now)) = inflight v \<and>
      (internalPayload v = None \<and> videoStatus v \<noteq> Some (JStr ''failed'') \<longrightarrow>
         render (step parse v (PollTick src now)) = ErrorPanel timeout_text)) \<and>
   (\<not> now - pollStartTime v > MAX_POLL_TIMEOUT_MS \<longrightarrow>
      error (step parse v (PollTick src now)) = error v \<and>
      pollRef (step parse v (PollTick src now)) = pollRef v \<and>
      inflight (step parse v (PollTick src now)) = inflight v @ [PendingFetch False])"
proof (cases "now - pollStartTime v > MAX_POLL_TIMEOUT_MS")
  case True
  have late: "step parse v (PollTick src now) =
      (case src of
         Interval \<Rightarrow> v\<lparr>pollRef := False, error := Some timeout_text, loading := False\<rparr>
       | Early \<Rightarrow> v\<lparr>earlyPollTimer := False, pollRef := False, error := Some timeout_text,
                     loading := False\<rparr>)"
    using True by (cases src) (simp_all add: runPoll_timeout)
  show ?thesis
    using True unfolding late by (cases src) (simp_all add: render_def timeout_text_def)
next
  case False
  have early: "step parse v (PollTick src now) =
      (case src of
         Interval \<Rightarrow> v\<lparr>inflight := inflight v @ [PendingFetch False]\<rparr>
       | Early \<Rightarrow> v\<lparr>earlyPollTimer := False, inflight := inflight v @ [PendingFetch False]\<rparr>)"
    using False by (cases src) (simp_all add: runPoll_in_time)
  show ?thesis
    using False unfolding early by (cases src) simp_all
qed

text \<open>The amended statement at a tick after 300001 ms and at a tick after 3000 ms.\<close>

theorem timeout_tick_witness:
  "300001 - pollStartTime (mount 0) > MAX_POLL_TIMEOUT_MS \<and>
   error (step demo_parse (mount 0) (PollTick Interval 300001)) = Some timeout_text \<and>
   pollRef (step demo_parse (mount 0) (PollTick Interval 300001)) = False \<and>
   render (step demo_parse (mount 0) (PollTick Interval 300001)) = ErrorPanel timeout_text \<and>
   \<not> 3000 - pollStartTime (mount 0) > MAX_POLL_TIMEOUT_MS \<and>
   error (step demo_parse (mount 0) (PollTick Interval 3000)) = error (mount 0)"
  using timeout_tick [of 300001 "mount 0" demo_parse Interval] timeout_tick [of 3000 "mount 0" demo_parse Interval]
  by (simp add: mount_fields MAX_POLL_TIMEOUT_MS_def del: step.simps)

lemma after_timeout:
  "run demo_parse (mount 0) [PollTick Early 1000, PollTick Interval 300001] =
     (mount 0)\<lparr>earlyPollTimer := False,
               inflight := [PendingStatus, PendingFetch False, PendingFetch True, PendingFetch False],
               pollRef := False, error := Some timeout_text, loading := False\<rparr>"
  by (simp add: run_def deliver_def mount_fields runPoll_def MAX_POLL_TIMEOUT_MS_def timeout_text_def)

text \<open>
  Claim C6, as stated, fails: after the timeout both subscriptions are still there, a push
  and the answer to an earlier pull can still be delivered, and the push turns the
  timeout error into the dashboard.
\<close>

theorem timeout_keeps_subscriptions_counterexample:
  "error (run demo_parse (mount 0) [PollTick Early 1000, PollTick Interval 300001]) = Some timeout_text \<and>
   render (run demo_parse (mount 0) [PollTick Early 1000, PollTick Interval 300001]) = ErrorPanel timeout_text \<and>
   channelAnalysis (run demo_parse (mount 0) [PollTick Early 1000, PollTick Interval 300001]) \<and>
   channelVideo (run demo_parse (mount 0) [PollTick Early 1000, PollTick Interval 300001]) \<and>
   enabled (run demo_parse (mount 0) [PollTick Early 1000, PollTick Interval 300001]) (AnalysisPush row_abc) \<and>
   enabled (run demo_parse (mount 0) [PollTick Early 1000, PollTick Interval 300001]) (FetchDone False (QData row_abc)) \<and>
   render (run demo_parse (mount 0) [PollTick Early 1000, PollTick Interval 300001, AnalysisPush row_abc]) =
     Dashboard (payload_of_summary ''first'') None"
proof -
  have "run demo_parse (mount 0) [PollTick Early 1000, PollTick Interval 300001, AnalysisPush row_abc] =
        deliver demo_parse (run demo_parse (mount 0) [PollTick Early 1000, PollTick Interval 300001])
          (AnalysisPush row_abc)"
    using run_snoc [of demo_parse "mount 0" "[PollTick Early 1000, PollTick Interval 300001]" "AnalysisPush row_abc"]
    by simp
  then show ?thesis
    by (simp add: after_timeout mount_fields deliver_def on_analysis_change_Some [OF demo_rows(1)]
        render_def timeout_text_def truthy_opt_def)
qed

lemma latest_adopted:
  assumes "rowToPayload parse data = Some pl" and "truthy_opt (js_get data ''video_id'')"
  shows "step parse v (LatestDone from_poll (QData data)) =
           v\<lparr>inflight := remove1 (PendingLatest from_poll) (inflight v),
             internalPayload := Some pl, error := None, loading := False,
             fallbackVideoId := js_get data ''video_id''\<rparr>"
proof -
  have "truthy_opt data"
    using assms(1) by (auto simp add: rowToPayload_def split: if_splits)
  with assms show ?thesis
    by (simp add: fetchLatest_result_def applyResult_def)
qed

lemma count_list_remove1_le: "count_list (remove1 x xs) y \<le> count_list xs y"
  by (induction xs) auto

lemma count_list_snoc: "count_list (xs @ [z]) y = count_list xs y + (if z = y then 1 else 0)"
  by (induction xs) auto

lemma see_status_inflight: "inflight (see_status v st) = inflight v"
  by (simp add: see_status_def Let_def)

lemma fetchLatest_result_inflight: "inflight (fst (fetchLatest_result parse v res)) = inflight v"
  by (simp add: fetchLatest_result_def applyResult_payload split: query_result.splits option.splits)

lemma latest_started_only_by_empty_pull:
  assumes "count_list (inflight (step parse v ev)) (PendingLatest b) >
           count_list (inflight v) (PendingLatest b)"
  shows "\<exists>res. ev = FetchDone (\<not> b) res \<and>
           snd (fetchOnce_result parse (\<not> b)
                  (v\<lparr>inflight := remove1 (PendingFetch (\<not> b)) (inflight v)\<rparr>) res) = None"
proof (cases ev)
  case (AnalysisPush r)
  with assms show ?thesis by (simp add: on_analysis_change_def applyResult_payload)
next
  case (VideoPush r)
  with assms show ?thesis by (simp add: see_status_inflight)
next
  case (PollTick src now)
  with assms show ?thesis by (cases src) (simp_all add: runPoll_def count_list_snoc split: if_splits)
next
  case (FetchDone flag res)
  let ?v0 = "v\<lparr>inflight := remove1 (PendingFetch flag) (inflight v)\<rparr>"
  have le: "count_list (remove1 (PendingFetch flag) (inflight v)) (PendingLatest b) \<le>
            count_list (inflight v) (PendingLatest b)"
    by (rule count_list_remove1_le)
  show ?thesis
  proof (cases "snd (fetchOnce_result parse flag ?v0 res)")
    case None
    with assms FetchDone le have "flag = (\<not> b)"
      by (cases flag) (auto simp add: Let_def split_beta fetchOnce_result_fields count_list_snoc split: if_splits)
    with None FetchDone show ?thesis by simp
  next
    case (Some d)
    with assms FetchDone le show ?thesis
      by (simp add: Let_def split_beta fetchOnce_result_fields applyResult_payload)
  qed
next
  case (LatestDone fp res)
  have "count_list (remove1 (PendingLatest fp) (inflight v)) (PendingLatest b) \<le>
        count_list (inflight v) (PendingLatest b)"
    by (rule count_list_remove1_le)
  with assms LatestDone show ?thesis
    by (simp add: Let_def split_beta fetchLatest_result_inflight count_list_snoc split: if_splits)
next
  case (StatusDone res)
  have "count_list (remove1 PendingStatus (inflight v)) (PendingLatest b) \<le>
        count_list (inflight v) (PendingLatest b)"
    by (rule count_list_remove1_le)
  with assms StatusDone show ?thesis
    by (simp add: fetchVideoStatus_result_def see_status_inflight split: query_result.splits)
next
  case StepTick
  with assms show ?thesis by simp
next
  case Cleanup
  with assms show ?thesis by simp
qed

text \<open>
  Claim C9, amended. A lookup of the latest analysis record is started only by a pull for
  the requested id that yielded no payload. When the latest row has a payload and an
  owning video id, it is adopted whatever the state was: the payload is stored, the
  owning id is stored as \<^verbatim>\<open>fallbackVideoId\<close>, and the dashboard is rendered with that id
  as its tag.
\<close>

theorem fallback_adoption:
  "(count_list (inflight (step parse v ev)) (PendingLatest b) > count_list (inflight v) (PendingLatest b) \<longrightarrow>
      (\<exists>res. ev = FetchDone (\<not> b) res \<and>
         snd (fetchOnce_result parse (\<not> b)
                (v\<lparr>inflight := remove1 (PendingFetch (\<not> b)) (inflight v)\<rparr>) res) = None)) \<and>
   (rowToPayload parse data = Some pl \<and> truthy_opt (js_get data ''video_id'') \<longrightarrow>
      internalPayload (step parse v (LatestDone b (QData data))) = Some pl \<and>
      fallbackVideoId (step parse v (LatestDone b (QData data))) = js_get data ''video_id'' \<and>
      render (step parse v (LatestDone b (QData data))) = Dashboard pl (js_get data ''video_id''))"
  using latest_started_only_by_empty_pull [where v = v and b = b and parse = parse and ev = ev]
        latest_adopted [where parse = parse and data = data and pl = pl and v = v and from_poll = b]
  by (simp add: render_def del: step.simps)

text \<open>The amended statement at an empty pull and at the latest row of another job.\<close>

theorem fallback_adoption_witness:
  "count_list (inflight (step demo_parse (mount 0) (FetchDone False (QData None)))) (PendingLatest True) >
     count_list (inflight (mount 0)) (PendingLatest True) \<and>
   snd (fetchOnce_result demo_parse False
          ((mount 0)\<lparr>inflight := remove1 (PendingFetch False) (inflight (mount 0))\<rparr>) (QData None)) = None \<and>
   rowToPayload demo_parse row_other = Some (payload_of_summary ''elsewhere'') \<and>
   truthy_opt (js_get row_other ''video_id'') \<and>
   render (step demo_parse (mount 0) (LatestDone True (QData row_other))) =
     Dashboard (payload_of_summary ''elsewhere'') (Some (JStr ''other''))"
proof -
  have c: "count_list (inflight (step demo_parse (mount 0) (FetchDone False (QData None)))) (PendingLatest True) >
     count_list (inflight (mount 0)) (PendingLatest True)"
    by (simp add: fetchOnce_result_def demo_rows(4) mount_fields)
  have t: "truthy_opt (js_get row_other ''video_id'')" and g: "js_get row_other ''video_id'' = Some (JStr ''other'')"
    by (simp_all add: row_other_def truthy_opt_def)
  from fallback_adoption [where parse = demo_parse and v = "mount 0" and ev = "FetchDone False (QData None)"
         and b = True and data = row_other and pl = "payload_of_summary ''elsewhere''"] c t g demo_rows(3)
  show ?thesis by (simp del: step.simps)
qed

text \<open>
  Claim C9, as stated, fails: the view is ready with the record of job \<^verbatim>\<open>abc\<close>; a pull
  issued earlier then answers with no row, the lookup of the latest record answers with
  the row of another job, and the dashboard shows that row instead.
\<close>

theorem fallback_overrides_ready_counterexample:
  "render (run demo_parse (mount 0) [AnalysisPush row_abc]) = Dashboard (payload_of_summary ''first'') None \<and>
   enabled (run demo_parse (mount 0) [AnalysisPush row_abc]) (FetchDone False (QData None)) \<and>
   enabled (run demo_parse (mount 0) [AnalysisPush row_abc, FetchDone False (QData None)])
     (LatestDone True (QData row_other)) \<and>
   render (run demo_parse (mount 0)
             [AnalysisPush row_abc, FetchDone False (QData None), LatestDone True (QData row_other)]) =
     Dashboard (payload_of_summary ''elsewhere'') (Some (JStr ''other'')) \<and>
   payload_of_summary ''elsewhere'' \<noteq> payload_of_summary ''first''"
proof -
  have g: "js_get row_other ''video_id'' = Some (JStr ''other'')"
    by (simp add: row_other_def)
  have s2: "run demo_parse (mount 0) [AnalysisPush row_abc, FetchDone False (QData None)] =
      (mount 0)\<lparr>internalPayload := Some (payload_of_summary ''first''), error := None, loading := False,
                inflight := [PendingStatus, PendingFetch True, PendingLatest True]\<rparr>"
    using run_snoc [of demo_parse "mount 0" "[AnalysisPush row_abc]" "FetchDone False (QData None)"]
    by (simp add: after_first_push deliver_def mount_fields fetchOnce_result_def demo_rows(4))
  have s3: "run demo_parse (mount 0)
             [AnalysisPush row_abc, FetchDone False (QData None), LatestDone True (QData row_other)] =
      (mount 0)\<lparr>internalPayload := Some (payload_of_summary ''elsewhere''), error := None, loading := False,
                inflight := [PendingStatus, PendingFetch True], fallbackVideoId := Some (JStr ''other'')\<rparr>"
    using run_snoc [of demo_parse "mount 0" "[AnalysisPush row_abc, FetchDone False (QData None)]"
                      "LatestDone True (QData row_other)"]
    by (simp add: s2 deliver_def mount_fields g truthy_opt_def
          latest_adopted [OF demo_rows(3), of _ True] del: step.simps)
  show ?thesis
    by (simp add: s3 s2 after_first_push render_def mount_fields truthy_opt_def payload_of_summary_def)
qed

end
